theory Spec2Isabelle
  imports Complex_Main "HOL-Library.AList"
begin

section \<open>JavaScript values\<close>

text \<open>
  The values that flow through the layer manager and the session: \<open>undefined\<close>, \<open>null\<close>,
  booleans, numbers, strings, and references to objects (compositor layers, reference
  spaces, video elements) and to functions.  Numbers are real numbers: rounding and the
  non-finite values of IEEE arithmetic are outside this type.  Strict inequality
  \<^verbatim>\<open>!==\<close> on these values is inequality of the datatype (objects compare by reference).
\<close>

datatype jsval =
    JUndefined
  | JNull
  | JBool bool
  | JNum real
  | JStr string
  | JObj nat
  | JFunction string

datatype error =
    Error string
  | TypeError string
  | Rejection jsval

section \<open>util/MediaLayerManager.js\<close>

text \<open>
  The class has two static getters.  Static members are properties of the constructor
  function \<^verbatim>\<open>MediaLayerManager\<close> itself.
\<close>

definition QUAD_LAYER :: jsval where
  "QUAD_LAYER = JStr ''QUAD_LAYER''"

definition EQUIRECT_LAYER :: jsval where
  "EQUIRECT_LAYER = JStr ''EQUIRECT_LAYER''"

text \<open>
  An instance has the two own properties its constructor assigns; its prototype holds the
  constructor and the two instance methods.
\<close>

record MediaLayerManager =
  session :: nat
  mediaFactory :: nat

definition prototype_members :: "string list" where
  "prototype_members = [''constructor'', ''createMediaFactory'', ''createLayer'']"

text \<open>
  Reading \<^verbatim>\<open>this.p\<close> inside an instance method: the own properties, then the prototype,
  and \<open>undefined\<close> for a name found on neither.  The constructor function, where the static
  getters live, is not on the prototype chain of an instance.  (The members of
  \<^verbatim>\<open>Object.prototype\<close> are left out; none of them is read by this class.)
\<close>

definition this_get :: "MediaLayerManager \<Rightarrow> string \<Rightarrow> jsval" where
  "this_get this p =
     (if p = ''session'' then JObj (session this)
      else if p = ''mediaFactory'' then JObj (mediaFactory this)
      else if p \<in> set prototype_members then JFunction p
      else JUndefined)"

text \<open>
  The calls \<^verbatim>\<open>createLayer\<close> makes on its collaborators: the session and the media binding.
\<close>

datatype call =
    RequestReferenceSpace string
  | CreateQuadLayer jsval "(string \<times> jsval) list"
  | CreateEquirectLayer jsval "(string \<times> jsval) list"

text \<open>
  The object literal \<^verbatim>\<open>{ space: refSpace, ...options }\<close>: the key \<^verbatim>\<open>space\<close> first, then
  every own property of \<^verbatim>\<open>options\<close> in order, a repeated key overwriting the value in place.
\<close>

definition spread_options :: "jsval \<Rightarrow> (string \<times> jsval) list \<Rightarrow> (string \<times> jsval) list" where
  "spread_options refSpace options =
     foldl (\<lambda>acc (k, v). AList.update k v acc) [(''space'', refSpace)] options"

text \<open>
  \<^verbatim>\<open>async createLayer(video, layerType, options)\<close>.  The body of an async function runs
  synchronously up to its first \<^verbatim>\<open>await\<close>; a \<^verbatim>\<open>throw\<close> rejects the returned promise.
  The model returns the calls made on the collaborators, in order, and the settlement of
  the returned promise.  Two parameters stand for the collaborators: \<open>refSpaceResult\<close> is
  how the promise of \<^verbatim>\<open>session.requestReferenceSpace\<close> settles, \<open>binding\<close> is what the
  media binding answers to a creation call.
\<close>

definition invalid_layer_type_message :: string where
  \<open>invalid_layer_type_message =
     ''Invalid layer type: layer type must be one of "QUAD_LAYER" || "EQUIRECT_LAYER"''\<close>

definition createLayer ::
  "MediaLayerManager \<Rightarrow> (error + jsval) \<Rightarrow> (call \<Rightarrow> error + jsval) \<Rightarrow>
   jsval \<Rightarrow> jsval \<Rightarrow> (string \<times> jsval) list \<Rightarrow> call list \<times> (error + jsval)" where
  "createLayer this refSpaceResult binding video layerType options =
     (if layerType \<noteq> this_get this ''QUAD_LAYER'' \<and>
         layerType \<noteq> this_get this ''EQUIRECT_LAYER''
      then ([], Inl (Error invalid_layer_type_message))
      else
        (case refSpaceResult of
           Inl e \<Rightarrow> ([RequestReferenceSpace ''local''], Inl e)
         | Inr refSpace \<Rightarrow>
             (if layerType = JStr ''QUAD_LAYER'' then
                (let c = CreateQuadLayer video (spread_options refSpace options)
                 in ([RequestReferenceSpace ''local'', c], binding c))
              else if layerType = JStr ''EQUIRECT_LAYER'' then
                (let c = CreateEquirectLayer video (spread_options refSpace options)
                 in ([RequestReferenceSpace ''local'', c], binding c))
              else ([RequestReferenceSpace ''local''], Inr JUndefined))))"

text \<open>
  What the specification calls failing with \<open>InvalidLayerKind\<close> before any asynchronous
  work: no call has been made on a collaborator and the promise is rejected with the error.
\<close>

definition fails_fast :: "call list \<times> (error + jsval) \<Rightarrow> bool" where
  "fails_fast r = (fst r = [] \<and> (case snd r of Inl (Error _) \<Rightarrow> True | _ \<Rightarrow> False))"

section \<open>The scene graph\<close>

text \<open>
  The applications use the scene only through \<^verbatim>\<open>add\<close>, \<^verbatim>\<open>remove\<close>, \<^verbatim>\<open>attach\<close> and
  \<^verbatim>\<open>getObjectByName\<close>.  An object has at most one parent; the parents that matter here
  are the scene and the controllers.  Objects built outside the modelled code (toolbar
  groups, overlays, meshes) are \<open>Ext\<close> references; the intersection marker of a
  controller is found by its name \<^verbatim>\<open>`${controller.uuid} intersectPoint`\<close>, so it is identified
  by the controller.

  \<^verbatim>\<open>add(x)\<close> detaches \<open>x\<close> from its old parent and makes it a child; a call with
  \<open>undefined\<close> is reported on the console and changes nothing.  \<^verbatim>\<open>remove(x)\<close> detaches
  \<open>x\<close> when it is a child of the receiver and does nothing otherwise.  \<^verbatim>\<open>attach(x)\<close>
  reads properties of \<open>x\<close> and so throws on \<open>undefined\<close>.  The graph also keeps the
  sequence of calls that named an object.
\<close>

datatype obj = Ext nat | IntersectPoint nat

datatype node = Scene | Controller nat

datatype scene_op = Add obj | Remove obj | Attach nat obj | Detach nat obj

record scene_graph =
  parent :: "obj \<Rightarrow> node option"
  ops :: "scene_op list"

definition scene_add :: "obj option \<Rightarrow> scene_graph \<Rightarrow> scene_graph" where
  "scene_add x g =
     (case x of
        None \<Rightarrow> g
      | Some y \<Rightarrow> g\<lparr>parent := (parent g)(y \<mapsto> Scene), ops := ops g @ [Add y]\<rparr>)"

definition scene_remove :: "obj option \<Rightarrow> scene_graph \<Rightarrow> scene_graph" where
  "scene_remove x g =
     (case x of
        None \<Rightarrow> g
      | Some y \<Rightarrow>
          g\<lparr>parent := (if parent g y = Some Scene then (parent g)(y := None) else parent g),
            ops := ops g @ [Remove y]\<rparr>)"

definition controller_attach :: "nat \<Rightarrow> obj option \<Rightarrow> scene_graph \<Rightarrow> error + scene_graph" where
  "controller_attach c x g =
     (case x of
        None \<Rightarrow> Inl (TypeError ''Cannot read properties of undefined'')
      | Some y \<Rightarrow> Inr (g\<lparr>parent := (parent g)(y \<mapsto> Controller c), ops := ops g @ [Attach c y]\<rparr>))"

definition controller_remove :: "nat \<Rightarrow> obj option \<Rightarrow> scene_graph \<Rightarrow> scene_graph" where
  "controller_remove c x g =
     (case x of
        None \<Rightarrow> g
      | Some y \<Rightarrow>
          g\<lparr>parent := (if parent g y = Some (Controller c) then (parent g)(y := None) else parent g),
            ops := ops g @ [Detach c y]\<rparr>)"

definition in_scene :: "scene_graph \<Rightarrow> obj \<Rightarrow> bool" where
  "in_scene g x = (parent g x = Some Scene)"

text \<open>
  Whether the call sequence adds \<open>x\<close> twice with no removal of \<open>x\<close> in between;
  \<open>added\<close> says that the last call on \<open>x\<close> so far was an \<^verbatim>\<open>add\<close>.
\<close>

fun added_twice :: "obj \<Rightarrow> bool \<Rightarrow> scene_op list \<Rightarrow> bool" where
  "added_twice x added [] = False"
| "added_twice x added (Add y # rest) =
     (if y = x then (added \<or> added_twice x True rest) else added_twice x added rest)"
| "added_twice x added (Remove y # rest) =
     (if y = x then added_twice x False rest else added_twice x added rest)"
| "added_twice x added (Attach c y # rest) = added_twice x added rest"
| "added_twice x added (Detach c y # rest) = added_twice x added rest"

section \<open>Sessions, videos and effects\<close>

text \<open>
  Of a session the code reads \<^verbatim>\<open>renderState.layers\<close> (an array, or \<open>undefined\<close> when the
  session has no layer support) and the property \<^verbatim>\<open>hasMediaLayer\<close> it sets itself
  (absent, so falsy, on a fresh session).  \<^verbatim>\<open>updateRenderState\<close> is modelled as replacing
  the layer list.
\<close>

record xr_session =
  layers :: "jsval list option"
  hasMediaLayer :: bool

text \<open>
  A video element: the two times are finite reals (the \<open>NaN\<close> duration of an element
  without metadata and the infinite duration of a stream are outside the type);
  \<open>play_calls\<close> counts the calls of \<^verbatim>\<open>play()\<close>.
\<close>

record video_element =
  element_id :: nat
  currentTime :: real
  duration :: real
  readyState :: nat
  play_calls :: nat

definition play :: "video_element \<Rightarrow> video_element" where
  "play v = v\<lparr>play_calls := Suc (play_calls v)\<rparr>"

text \<open>The first element of an array; reading index 0 of an empty array gives \<open>undefined\<close>.\<close>

definition first_layer :: "jsval list \<Rightarrow> jsval" where
  "first_layer ls = (case ls of [] \<Rightarrow> JUndefined | l # _ \<Rightarrow> l)"

text \<open>
  An intersection reported by the ray caster: the name of the object hit and the point.
\<close>

record hit =
  hit_name :: string
  point_x :: real
  point_y :: real
  point_z :: real

text \<open>
  The observable effects of the render loop, in the order they happen.  \<open>BootstrapEntered\<close>
  marks the entry into the guarded block of \<^verbatim>\<open>render\<close>; \<open>Thrown\<close> is an exception that leaves
  \<^verbatim>\<open>render\<close> or a promise callback.
\<close>

datatype effect =
    BootstrapEntered
  | Called call
  | CreateMediaLayer jsval jsval
  | UpdateRenderState "jsval list"
  | Play string
  | UpdateOnRender string
  | LayerUpdate string "hit list"
  | GlassLayerMove string
  | UiUpdate
  | RenderScene
  | Thrown error

section \<open>The single-layer application (unnamed/part_000)\<close>

text \<open>
  Division of two finite numbers is a finite number unless the divisor is zero; then the
  quotient is \<open>NaN\<close> or infinite, written \<open>None\<close>, and so is everything computed from it.
\<close>

definition js_div :: "real \<Rightarrow> real \<Rightarrow> real option" where
  "js_div a b = (if b = 0 then None else Some (a / b))"

text \<open>
  The two segments of the progress bar: planes of width 1 (\<^verbatim>\<open>PlaneGeometry(1, 0.1)\<close>), of
  which the code sets the horizontal scale and the horizontal position of the centre.
\<close>

record mesh =
  scale_x :: "real option"
  position_x :: "real option"

definition geometry_width :: real where
  "geometry_width = 1"

definition left_edge :: "mesh \<Rightarrow> real option" where
  "left_edge m =
     (case (scale_x m, position_x m) of
        (Some s, Some p) \<Rightarrow> Some (p - s * geometry_width / 2)
      | _ \<Rightarrow> None)"

definition right_edge :: "mesh \<Rightarrow> real option" where
  "right_edge m =
     (case (scale_x m, position_x m) of
        (Some s, Some p) \<Rightarrow> Some (p + s * geometry_width / 2)
      | _ \<Rightarrow> None)"

text \<open>
  The state both applications share, and the state of this one.  \<open>xrSession\<close> is what
  \<^verbatim>\<open>xr.getSession()\<close> returns, \<open>None\<close> for \<open>null\<close>; a run covers the life of one session
  (or of none).  \<open>appToolbarGroup\<close> is \<^verbatim>\<open>this.toolbarGroup\<close>, \<open>isToolbarVisible\<close> is
  \<^verbatim>\<open>scene.userData.isToolbarVisible\<close>, and \<open>pendingReferenceSpace\<close> counts the
  reference-space promises that have not settled yet.  The controllers and grips that
  \<^verbatim>\<open>buildControllers\<close> puts in the scene are not tracked.
\<close>

record app =
  scene :: scene_graph
  xrSession :: "xr_session option"
  effects :: "effect list"

record single_app = app +
  isToolbarVisible :: bool
  appToolbarGroup :: obj
  video :: video_element
  redProgressBar :: mesh
  whiteProgressBar :: mesh
  pendingReferenceSpace :: nat

definition updateProgressBar :: "single_app \<Rightarrow> single_app" where
  "updateProgressBar a =
     (let progress = map_option (\<lambda>q. q * 2) (js_div (currentTime (video a)) (duration (video a)));
          redOffset = map_option (\<lambda>p. (2 - p) / 2) progress;
          whiteOffset = map_option (\<lambda>p. p / 2) progress
      in a\<lparr>redProgressBar := \<lparr>scale_x = progress, position_x = map_option uminus redOffset\<rparr>,
           whiteProgressBar :=
             \<lparr>scale_x = map_option (\<lambda>p. 2 - p) progress, position_x = whiteOffset\<rparr>\<rparr>)"

definition setVideoCurrentTime :: "real \<Rightarrow> single_app \<Rightarrow> single_app" where
  "setVideoCurrentTime xPosition a =
     (let timeFraction = (xPosition + 1) / 2
      in a\<lparr>video := (video a)\<lparr>currentTime := timeFraction * duration (video a)\<rparr>\<rparr>)"

text \<open>
  \<^verbatim>\<open>render\<close>, up to the point where it returns: \<^verbatim>\<open>this.video\<close> is always set by the
  constructor, so the progress bar is updated on every frame; the guarded block marks the
  session and requests the reference space, whose promise is settled later.
\<close>

definition render :: "bool \<Rightarrow> single_app \<Rightarrow> single_app" where
  "render isPresenting a =
     (let a1 = (if isPresenting then a\<lparr>effects := effects a @ [UiUpdate]\<rparr> else a);
          a2 = updateProgressBar a1;
          a3 = (case xrSession a2 of
                  None \<Rightarrow> a2
                | Some s \<Rightarrow>
                    if layers s \<noteq> None \<and> \<not> hasMediaLayer s \<and> readyState (video a2) \<noteq> 0
                    then a2\<lparr>xrSession := Some (s\<lparr>hasMediaLayer := True\<rparr>),
                            pendingReferenceSpace := Suc (pendingReferenceSpace a2),
                            effects := effects a2 @ [BootstrapEntered, Called (RequestReferenceSpace ''local'')]\<rparr>
                    else a2)
      in a3\<lparr>effects := effects a3 @ [RenderScene]\<rparr>)"

text \<open>
  The callback given to \<^verbatim>\<open>then\<close>, run when the reference space arrives.  \<open>binding\<close> is the
  answer of the media binding to the creation call.
\<close>

definition onReferenceSpace :: "(call \<Rightarrow> error + jsval) \<Rightarrow> jsval \<Rightarrow> single_app \<Rightarrow> single_app" where
  "onReferenceSpace binding refSpace a =
     (case xrSession a of
        None \<Rightarrow> a
      | Some s \<Rightarrow>
          (let c = CreateEquirectLayer (JObj (element_id (video a)))
                     [(''space'', refSpace), (''layout'', JStr ''stereo-top-bottom'')]
           in case binding c of
                Inl e \<Rightarrow> a\<lparr>effects := effects a @ [Called c, Thrown e]\<rparr>
              | Inr equirectLayer \<Rightarrow>
                  (case layers s of
                     None \<Rightarrow>
                       a\<lparr>effects := effects a @ [Called c, Thrown (TypeError ''Cannot read properties of undefined'')]\<rparr>
                   | Some ls \<Rightarrow>
                       a\<lparr>xrSession := Some (s\<lparr>layers := Some [equirectLayer, first_layer ls]\<rparr>),
                         video := play (video a),
                         effects := effects a @ [Called c, UpdateRenderState [equirectLayer, first_layer ls],
                                         Play ''video'']\<rparr>)))"

definition handleToolbarIntersection :: "hit list \<Rightarrow> single_app \<Rightarrow> single_app" where
  "handleToolbarIntersection intersections a =
     (if \<not> isToolbarVisible a
      then a\<lparr>isToolbarVisible := True, scene := scene_add (Some (appToolbarGroup a)) (scene a)\<rparr>
      else
        (let a1 = (if intersections = []
                   then a\<lparr>isToolbarVisible := False,
                          scene := scene_remove (Some (appToolbarGroup a)) (scene a)\<rparr>
                   else a)
         in case find (\<lambda>h. hit_name h = ''white progress bar'' \<or> hit_name h = ''red progress bar'')
                   intersections of
              None \<Rightarrow> a1
            | Some h \<Rightarrow> updateProgressBar (setVideoCurrentTime (point_x h) a1)))"

definition onDisconnected :: "single_app \<Rightarrow> single_app" where
  "onDisconnected a = a\<lparr>scene := scene_remove (Some (appToolbarGroup a)) (scene a)\<rparr>"

text \<open>
  What can happen to the running application: an animation frame, the settlement of the
  pending reference-space promise, the two controller events the code listens to (with the
  intersections the ray caster reports at that moment), and the video element loading or
  playing on.
\<close>

datatype event =
    Frame bool
  | ReferenceSpaceSettled "error + jsval"
  | SelectStart nat "hit list"
  | Disconnected nat
  | VideoReadyState nat
  | VideoTime real

definition step :: "(call \<Rightarrow> error + jsval) \<Rightarrow> single_app \<Rightarrow> event \<Rightarrow> single_app" where
  "step binding a e =
     (case e of
        Frame isPresenting \<Rightarrow> render isPresenting a
      | ReferenceSpaceSettled r \<Rightarrow>
          (if pendingReferenceSpace a = 0 then a
           else
             (let a1 = a\<lparr>pendingReferenceSpace := pendingReferenceSpace a - 1\<rparr>
              in case r of
                   Inl err \<Rightarrow> a1\<lparr>effects := effects a1 @ [Thrown err]\<rparr>
                 | Inr refSpace \<Rightarrow> onReferenceSpace binding refSpace a1))
      | SelectStart controller intersections \<Rightarrow> handleToolbarIntersection intersections a
      | Disconnected controller \<Rightarrow> onDisconnected a
      | VideoReadyState n \<Rightarrow> a\<lparr>video := (video a)\<lparr>readyState := n\<rparr>\<rparr>
      | VideoTime t \<Rightarrow> a\<lparr>video := (video a)\<lparr>currentTime := t\<rparr>\<rparr>)"

definition run :: "(call \<Rightarrow> error + jsval) \<Rightarrow> single_app \<Rightarrow> event list \<Rightarrow> single_app" where
  "run binding a es = foldl (step binding) a es"

text \<open>
  The state the constructor leaves: toolbar hidden and not in the scene, nothing requested.
\<close>

definition single_initial :: "obj \<Rightarrow> video_element \<Rightarrow> xr_session option \<Rightarrow> single_app" where
  "single_initial tg v s =
     \<lparr>scene = \<lparr>parent = Map.empty, ops = []\<rparr>, xrSession = s, effects = [],
      isToolbarVisible = False, appToolbarGroup = tg, video = v,
      redProgressBar = \<lparr>scale_x = Some 1, position_x = Some 0\<rparr>,
      whiteProgressBar = \<lparr>scale_x = Some 1, position_x = Some 0\<rparr>,
      pendingReferenceSpace = 0\<rparr>"

text \<open>The width of the whole bar: the literal 2 of \<^verbatim>\<open>updateProgressBar\<close>.\<close>

definition barWidth :: real where
  "barWidth = 2"

text \<open>
  The scale the specification gives the played segment, and the sum of the two scales
  as the meshes carry them.
\<close>

definition played_scale :: "single_app \<Rightarrow> real" where
  "played_scale a = (currentTime (video a) / duration (video a)) * barWidth"

definition combined_scale :: "single_app \<Rightarrow> real option" where
  "combined_scale a =
     (case (scale_x (redProgressBar a), scale_x (whiteProgressBar a)) of
        (Some p, Some r) \<Rightarrow> Some (p + r)
      | _ \<Rightarrow> None)"

section \<open>The multi-layer application (apps/simple-video-layers/multiple-layers.js)\<close>

text \<open>
  Modelled from the spec: the object that \<^verbatim>\<open>createMediaLayer\<close> resolves with.  Its class
  is not among the sources; the fields are those the application reads and the
  specification lists for a managed layer: the compositor layer handle, the toolbar
  group, the list of interactive objects, whether there is a draggable (glass) overlay,
  and the overlay's object.  The objects are external references.  The methods
  \<^verbatim>\<open>update\<close>, \<^verbatim>\<open>updateOnRender\<close> and \<^verbatim>\<open>glassLayer.move\<close> are recorded as effects.
\<close>

record media_layer =
  layer :: jsval
  toolbarGroup :: nat
  objects :: "nat list"
  glassLayer :: bool
  glass :: "nat option"

text \<open>
  Where the asynchronous block of \<^verbatim>\<open>render\<close> stands: not entered, suspended at the first or
  the second \<^verbatim>\<open>await\<close> (the second one holding the first layer), completed, or left by an
  exception.
\<close>

datatype bootstrap =
    NotStarted
  | AwaitingEquirect
  | AwaitingQuad media_layer
  | Finished
  | Failed error

text \<open>
  \<open>mediaLayers\<close> and \<open>videos\<close> are \<^verbatim>\<open>Map\<close>s, kept in insertion order.
  \<open>layerToolbarVisible\<close> is \<^verbatim>\<open>scene.userData.isToolbarVisible\<close>: \<open>undefined\<close> until
  \<^verbatim>\<open>hideToolbars\<close> creates the object, then keyed by layer name.
\<close>

record multi_app = app +
  mediaLayers :: "(string \<times> media_layer) list"
  videos :: "(string \<times> video_element) list"
  layerToolbarVisible :: "(string \<rightharpoonup> bool) option"
  intersectPointPosition :: "nat \<rightharpoonup> real \<times> real \<times> real"
  bootstrap :: bootstrap

definition controllers :: "nat list" where
  "controllers = [0, 1]"

definition hideToolbars :: "multi_app \<Rightarrow> multi_app" where
  "hideToolbars a =
     (let m0 = (case layerToolbarVisible a of None \<Rightarrow> Map.empty | Some m \<Rightarrow> m)
      in a\<lparr>layerToolbarVisible :=
             Some (foldl (\<lambda>m (layerName, _). m(layerName \<mapsto> False)) m0 (mediaLayers a))\<rparr>)"

text \<open>
  The loop that computes \<^verbatim>\<open>areAllToolbarsHidden\<close>: with at least one layer it reads a
  property of \<^verbatim>\<open>isToolbarVisible\<close>, which throws while that is \<open>undefined\<close>.
\<close>

definition areAllToolbarsHidden :: "multi_app \<Rightarrow> error + bool" where
  "areAllToolbarsHidden a =
     (if mediaLayers a = [] then Inr True
      else
        (case layerToolbarVisible a of
           None \<Rightarrow> Inl (TypeError ''Cannot read properties of undefined'')
         | Some m \<Rightarrow> Inr (list_all (\<lambda>(layerKey, _). m layerKey \<noteq> Some True) (mediaLayers a))))"

definition getIntersectPoint :: "scene_graph \<Rightarrow> nat \<Rightarrow> obj option" where
  "getIntersectPoint g controller =
     (if in_scene g (IntersectPoint controller) then Some (IntersectPoint controller) else None)"

text \<open>
  \<open>cast\<close> is the ray caster for the controller's pose at this moment.  The result is the
  state, and the exception thrown or the value returned (\<open>None\<close> for \<open>undefined\<close>).
\<close>

definition handleToolbarIntersections ::
  "(obj list \<Rightarrow> hit list) \<Rightarrow> nat \<Rightarrow> obj list option \<Rightarrow> multi_app \<Rightarrow>
   multi_app \<times> (error + hit list option)" where
  "handleToolbarIntersections cast controller objs a =
     (case objs of
        None \<Rightarrow> (a, Inr None)
      | Some os \<Rightarrow>
          (let intersections = cast os
           in case areAllToolbarsHidden a of
                Inl e \<Rightarrow> (a, Inl e)
              | Inr True \<Rightarrow>
                  (a\<lparr>scene := scene_remove (getIntersectPoint (scene a) controller) (scene a)\<rparr>,
                   Inr None)
              | Inr False \<Rightarrow>
                  (case intersections of
                     [] \<Rightarrow> (a, Inr (Some intersections))
                   | h # _ \<Rightarrow>
                       (a\<lparr>scene := scene_add (Some (IntersectPoint controller)) (scene a),
                          intersectPointPosition := (intersectPointPosition a)
                            (controller \<mapsto> (point_x h, point_y h, point_z h + 5 / 100))\<rparr>,
                        Inr (Some intersections)))))"

text \<open>The body of the \<^verbatim>\<open>forEach\<close> callback of \<^verbatim>\<open>handleSelectStart\<close>, for one layer.\<close>

definition selectStartLayer ::
  "(obj list \<Rightarrow> hit list) \<Rightarrow> nat \<Rightarrow> string \<Rightarrow> media_layer \<Rightarrow> multi_app \<Rightarrow>
   multi_app \<times> error option" where
  "selectStartLayer cast controller layerKey layerObj a =
     (case layerToolbarVisible a of
        None \<Rightarrow> (a, Some (TypeError ''Cannot read properties of undefined''))
      | Some m \<Rightarrow>
          if m layerKey \<noteq> Some True then
            (a\<lparr>layerToolbarVisible := Some (m(layerKey \<mapsto> True)),
               scene :=
                 (let g = scene_add (Some (Ext (toolbarGroup layerObj))) (scene a)
                  in if glassLayer layerObj then scene_add (map_option Ext (glass layerObj)) g else g)\<rparr>,
             None)
          else
            (case handleToolbarIntersections cast controller (Some (map Ext (objects layerObj))) a of
               (a1, Inl e) \<Rightarrow> (a1, Some e)
             | (a1, Inr None) \<Rightarrow> (a1, Some (TypeError ''Cannot read properties of undefined''))
             | (a1, Inr (Some intersections)) \<Rightarrow>
                 if intersections = [] then
                   (a1\<lparr>layerToolbarVisible := Some (m(layerKey \<mapsto> False)),
                       scene := scene_remove (map_option Ext (glass layerObj))
                                  (scene_remove (Some (Ext (toolbarGroup layerObj))) (scene a1))\<rparr>,
                    None)
                 else
                   (let a2 = a1\<lparr>effects := effects a1 @ [LayerUpdate layerKey intersections]\<rparr>
                    in if glassLayer layerObj then
                         (case controller_attach controller (map_option Ext (glass layerObj)) (scene a2) of
                            Inl e \<Rightarrow> (a2, Some e)
                          | Inr g \<Rightarrow> (a2\<lparr>scene := g\<rparr>, None))
                       else (a2, None))))"

fun selectStartLayers ::
  "(obj list \<Rightarrow> hit list) \<Rightarrow> nat \<Rightarrow> (string \<times> media_layer) list \<Rightarrow> multi_app \<Rightarrow>
   multi_app \<times> error option" where
  "selectStartLayers cast controller [] a = (a, None)"
| "selectStartLayers cast controller ((layerKey, layerObj) # rest) a =
     (case selectStartLayer cast controller layerKey layerObj a of
        (a1, Some e) \<Rightarrow> (a1, Some e)
      | (a1, None) \<Rightarrow> selectStartLayers cast controller rest a1)"

definition handleSelectStart ::
  "(obj list \<Rightarrow> hit list) \<Rightarrow> nat \<Rightarrow> multi_app \<Rightarrow> multi_app \<times> error option" where
  "handleSelectStart cast controller a = selectStartLayers cast controller (mediaLayers a) a"

fun selectEndLayers :: "nat \<Rightarrow> (string \<times> media_layer) list \<Rightarrow> multi_app \<Rightarrow> multi_app" where
  "selectEndLayers controller [] a = a"
| "selectEndLayers controller ((layerKey, layerObj) # rest) a =
     selectEndLayers controller rest
       (if glassLayer layerObj
        then a\<lparr>effects := effects a @ [GlassLayerMove layerKey],
               scene := controller_remove controller (map_option Ext (glass layerObj)) (scene a)\<rparr>
        else a)"

definition handleSelectEnd :: "nat \<Rightarrow> multi_app \<Rightarrow> multi_app" where
  "handleSelectEnd controller a = selectEndLayers controller (mediaLayers a) a"

text \<open>
  The listener \<^verbatim>\<open>setupVR\<close> registers for \<^verbatim>\<open>disconnected\<close> removes \<^verbatim>\<open>this.toolbarGroup\<close>.
  This application never assigns a property of that name (its toolbar groups belong to the
  media layers), so the expression is \<open>undefined\<close>.
\<close>

definition this_toolbarGroup :: "multi_app \<Rightarrow> obj option" where
  "this_toolbarGroup a = None"

definition onControllerDisconnected :: "multi_app \<Rightarrow> multi_app" where
  "onControllerDisconnected a = a\<lparr>scene := scene_remove (this_toolbarGroup a) (scene a)\<rparr>"

text \<open>The parts of \<^verbatim>\<open>render\<close>, in order.\<close>

definition updateLayersOnRender :: "multi_app \<Rightarrow> multi_app" where
  "updateLayersOnRender a =
     a\<lparr>effects := effects a @ map (\<lambda>(layerKey, _). UpdateOnRender layerKey) (mediaLayers a)\<rparr>"

fun controllersIntersections ::
  "(nat \<Rightarrow> obj list \<Rightarrow> hit list) \<Rightarrow> nat list \<Rightarrow> multi_app \<Rightarrow> multi_app \<times> error option" where
  "controllersIntersections cast [] a = (a, None)"
| "controllersIntersections cast (controller # rest) a =
     (let objs = concat (map (\<lambda>(_, mediaLayer). map Ext (objects mediaLayer)) (mediaLayers a))
      in case handleToolbarIntersections (cast controller) controller (Some objs) a of
           (a1, Inl e) \<Rightarrow> (a1, Some e)
         | (a1, Inr _) \<Rightarrow> controllersIntersections cast rest a1)"

definition isVideosReady :: "multi_app \<Rightarrow> bool" where
  "isVideosReady a = list_all (\<lambda>(_, v). readyState v = 4) (videos a)"

definition videos_get :: "multi_app \<Rightarrow> string \<Rightarrow> jsval" where
  "videos_get a layerKey =
     (case map_of (videos a) layerKey of None \<Rightarrow> JUndefined | Some v \<Rightarrow> JObj (element_id v))"

text \<open>
  \<^verbatim>\<open>render\<close> up to its first suspension or its return.  An exception inside rejects the
  promise \<^verbatim>\<open>render\<close> returns.  When the guard holds, the flag is set and the first
  \<^verbatim>\<open>createMediaLayer\<close> call is made; the function is then suspended.  The method
  \<^verbatim>\<open>createMediaLayer\<close> is taken as a parameter of the run: its promise is settled by a later
  event (a synchronous exception of the call is a rejection at once).
\<close>

definition renderM :: "bool \<Rightarrow> (nat \<Rightarrow> obj list \<Rightarrow> hit list) \<Rightarrow> multi_app \<Rightarrow> multi_app" where
  "renderM isPresenting cast a =
     (let a1 = (if isPresenting then updateLayersOnRender a else a)
      in case controllersIntersections cast controllers a1 of
           (a2, Some e) \<Rightarrow> a2\<lparr>effects := effects a2 @ [Thrown e]\<rparr>
         | (a2, None) \<Rightarrow>
             (case xrSession a2 of
                None \<Rightarrow> a2\<lparr>effects := effects a2 @ [RenderScene]\<rparr>
              | Some s \<Rightarrow>
                  if layers s \<noteq> None \<and> \<not> hasMediaLayer s \<and> isVideosReady a2
                  then a2\<lparr>xrSession := Some (s\<lparr>hasMediaLayer := True\<rparr>),
                          bootstrap := AwaitingEquirect,
                          effects := effects a2 @
                            [BootstrapEntered,
                             CreateMediaLayer (videos_get a2 ''equirect'') EQUIRECT_LAYER]\<rparr>
                  else a2\<lparr>effects := effects a2 @ [RenderScene]\<rparr>))"

text \<open>
  The rest of the block after the second \<^verbatim>\<open>await\<close>: store the layer, hide the toolbars,
  publish the layer list, start the videos, render.
\<close>

definition finishBootstrap :: "media_layer \<Rightarrow> media_layer \<Rightarrow> multi_app \<Rightarrow> multi_app" where
  "finishBootstrap equirect quad a =
     (let a1 = hideToolbars (a\<lparr>mediaLayers := AList.update ''quad'' quad (mediaLayers a)\<rparr>)
      in case xrSession a1 of
           None \<Rightarrow> a1
         | Some s \<Rightarrow>
             (case layers s of
                None \<Rightarrow>
                  a1\<lparr>bootstrap := Failed (TypeError ''Cannot read properties of undefined''),
                     effects := effects a1 @ [Thrown (TypeError ''Cannot read properties of undefined'')]\<rparr>
              | Some ls \<Rightarrow>
                  a1\<lparr>xrSession := Some (s\<lparr>layers := Some [layer equirect, layer quad, first_layer ls]\<rparr>),
                     videos := map (\<lambda>(k, v). (k, play v)) (videos a1),
                     bootstrap := Finished,
                     effects := effects a1 @
                       [UpdateRenderState [layer equirect, layer quad, first_layer ls]] @
                       map (\<lambda>(k, _). Play k) (videos a1) @ [RenderScene]\<rparr>))"

text \<open>The promise of the pending \<^verbatim>\<open>createMediaLayer\<close> call settles.\<close>

definition factorySettled :: "error + media_layer \<Rightarrow> multi_app \<Rightarrow> multi_app" where
  "factorySettled r a =
     (case bootstrap a of
        AwaitingEquirect \<Rightarrow>
          (case r of
             Inl e \<Rightarrow> a\<lparr>bootstrap := Failed e, effects := effects a @ [Thrown e]\<rparr>
           | Inr equirect \<Rightarrow>
               a\<lparr>mediaLayers := AList.update ''equirect'' equirect (mediaLayers a),
                 bootstrap := AwaitingQuad equirect,
                 effects := effects a @ [CreateMediaLayer (videos_get a ''quad'') QUAD_LAYER]\<rparr>)
      | AwaitingQuad equirect \<Rightarrow>
          (case r of
             Inl e \<Rightarrow> a\<lparr>bootstrap := Failed e, effects := effects a @ [Thrown e]\<rparr>
           | Inr quad \<Rightarrow> finishBootstrap equirect quad a)
      | _ \<Rightarrow> a)"

datatype mevent =
    MFrame bool "nat \<Rightarrow> obj list \<Rightarrow> hit list"
  | FactorySettled "error + media_layer"
  | MSelectStart nat "obj list \<Rightarrow> hit list"
  | MSelectEnd nat
  | MDisconnected nat
  | MVideoReadyState string nat

definition mstep :: "multi_app \<Rightarrow> mevent \<Rightarrow> multi_app" where
  "mstep a e =
     (case e of
        MFrame isPresenting cast \<Rightarrow> renderM isPresenting cast a
      | FactorySettled r \<Rightarrow> factorySettled r a
      | MSelectStart controller cast \<Rightarrow>
          (case handleSelectStart cast controller a of
             (a1, Some err) \<Rightarrow> a1\<lparr>effects := effects a1 @ [Thrown err]\<rparr>
           | (a1, None) \<Rightarrow> a1)
      | MSelectEnd controller \<Rightarrow> handleSelectEnd controller a
      | MDisconnected controller \<Rightarrow> onControllerDisconnected a
      | MVideoReadyState layerKey n \<Rightarrow>
          a\<lparr>videos := map (\<lambda>(k, v). if k = layerKey then (k, v\<lparr>readyState := n\<rparr>) else (k, v))
                         (videos a)\<rparr>)"

definition mrun :: "multi_app \<Rightarrow> mevent list \<Rightarrow> multi_app" where
  "mrun a es = foldl mstep a es"

text \<open>
  The state the constructor leaves: no media layer, one video per configured layer,
  no visibility map, nothing in the scene that the rest of the code looks at.
\<close>

definition multi_initial ::
  "video_element \<Rightarrow> video_element \<Rightarrow> xr_session option \<Rightarrow> multi_app" where
  "multi_initial v1 v2 s =
     \<lparr>scene = \<lparr>parent = Map.empty, ops = []\<rparr>, xrSession = s, effects = [],
      mediaLayers = [], videos = [(''equirect'', v1), (''quad'', v2)],
      layerToolbarVisible = None, intersectPointPosition = Map.empty,
      bootstrap = NotStarted\<rparr>"

section \<open>Vocabulary for the properties\<close>

text \<open>
  The definitions of this section are not taken from the code; the properties below are
  stated and proved with them.
\<close>

subsection \<open>Calls on the scene\<close>

text \<open>
  \<open>last_added\<close> says whether the last call on \<open>x\<close> in a call sequence was an \<^verbatim>\<open>add\<close>
  (starting from \<open>added\<close>); \<open>ops_since\<close> is the calls made on the scene between two
  states; \<open>visible\<close> is the truth value of \<^verbatim>\<open>isToolbarVisible[layerKey]\<close>.
  \<open>toolbar_ops_ok\<close> relates a state to a later one: the scene calls in between never add
  \<open>x\<close> twice in a row, where a toolbar that is marked visible counts as added, and
  a toolbar whose last call was an \<^verbatim>\<open>add\<close> is marked visible.
\<close>

fun last_added :: "obj \<Rightarrow> bool \<Rightarrow> scene_op list \<Rightarrow> bool" where
  "last_added x added [] = added"
| "last_added x added (Add y # rest) = last_added x (if y = x then True else added) rest"
| "last_added x added (Remove y # rest) = last_added x (if y = x then False else added) rest"
| "last_added x added (Attach c y # rest) = last_added x added rest"
| "last_added x added (Detach c y # rest) = last_added x added rest"

definition ops_since :: "scene_graph \<Rightarrow> scene_graph \<Rightarrow> scene_op list" where
  "ops_since g g' = drop (length (ops g)) (ops g')"

definition visible :: "multi_app \<Rightarrow> string \<Rightarrow> bool" where
  "visible a layerKey =
     (case layerToolbarVisible a of None \<Rightarrow> False | Some m \<Rightarrow> m layerKey = Some True)"

definition toolbar_ops_ok :: "obj \<Rightarrow> string \<Rightarrow> multi_app \<Rightarrow> multi_app \<Rightarrow> bool" where
  "toolbar_ops_ok x k a a' =
     (take (length (ops (scene a))) (ops (scene a')) = ops (scene a) \<and>
      \<not> added_twice x (visible a k) (ops_since (scene a) (scene a')) \<and>
      (last_added x (visible a k) (ops_since (scene a) (scene a')) \<longrightarrow> visible a' k))"

subsection \<open>Well-formed layers\<close>

text \<open>
  What the factory is expected to deliver and the \<^verbatim>\<open>Map\<close> guarantees: the visibility map
  exists, the keys of \<open>mediaLayers\<close> are distinct, a draggable layer has its overlay
  object (\<open>well_formed\<close>); the toolbar group of layer \<open>l\<close> is not the overlay of any layer
  nor the toolbar group of another one (\<open>own_toolbar\<close>).  \<open>layer_ok\<close> is the same, said of
  one entry; \<open>shown_objects\<close> is what a select-start adds for hidden layers;
  \<open>controller_event\<close> picks the events that come from a controller.
\<close>

definition well_formed :: "multi_app \<Rightarrow> bool" where
  "well_formed a =
     (layerToolbarVisible a \<noteq> None \<and> distinct (map fst (mediaLayers a)) \<and>
      list_all (\<lambda>(k, l). glassLayer l \<longrightarrow> glass l \<noteq> None) (mediaLayers a))"

definition own_toolbar :: "multi_app \<Rightarrow> string \<Rightarrow> media_layer \<Rightarrow> bool" where
  "own_toolbar a k l =
     list_all (\<lambda>(k2, l2). glass l2 \<noteq> Some (toolbarGroup l) \<and>
                 (k2 \<noteq> k \<longrightarrow> toolbarGroup l2 \<noteq> toolbarGroup l)) (mediaLayers a)"

definition layer_ok :: "string \<Rightarrow> nat \<Rightarrow> string \<times> media_layer \<Rightarrow> bool" where
  "layer_ok k t = (\<lambda>(k2, l2). (glassLayer l2 \<longrightarrow> glass l2 \<noteq> None) \<and> glass l2 \<noteq> Some t \<and>
                     (k2 \<noteq> k \<longrightarrow> toolbarGroup l2 \<noteq> t) \<and> (k2 = k \<longrightarrow> toolbarGroup l2 = t))"

definition shown_objects :: "(string \<times> media_layer) list \<Rightarrow> obj set" where
  "shown_objects ls =
     (\<Union>(k, l) \<in> set ls. {Ext (toolbarGroup l)} \<union>
        (if glassLayer l then Ext ` set_option (glass l) else {}))"

definition controller_event :: "mevent \<Rightarrow> bool" where
  "controller_event e =
     (case e of MSelectStart _ _ \<Rightarrow> True | MSelectEnd _ \<Rightarrow> True | MDisconnected _ \<Rightarrow> True
      | _ \<Rightarrow> False)"

subsection \<open>The bootstrap\<close>

text \<open>
  \<open>guard\<close> and \<open>single_guard\<close> are the conditions of the guarded blocks of the two
  \<^verbatim>\<open>render\<close> functions; \<open>flagged\<close> reads \<^verbatim>\<open>session.hasMediaLayer\<close>; \<open>session_layers\<close> reads
  \<^verbatim>\<open>session.renderState.layers\<close>.  \<open>bootstrap_trace\<close> keeps, of the effects, those of the
  bootstrap: the entry, the factory calls, the publication, the \<^verbatim>\<open>play()\<close> calls;
  \<open>publishes\<close> picks the last two kinds.  \<open>play_counts\<close> is the number of \<^verbatim>\<open>play()\<close>
  calls per video; \<open>is_settlement\<close> picks the settlement events; \<open>awaiting\<close> says that a
  factory call is pending.
\<close>

definition guard :: "multi_app \<Rightarrow> bool" where
  "guard a = (case xrSession a of None \<Rightarrow> False
              | Some s \<Rightarrow> layers s \<noteq> None \<and> \<not> hasMediaLayer s \<and> isVideosReady a)"

definition single_guard :: "single_app \<Rightarrow> bool" where
  "single_guard a =
     (case xrSession a of None \<Rightarrow> False
      | Some s \<Rightarrow> layers s \<noteq> None \<and> \<not> hasMediaLayer s \<and> readyState (video a) \<noteq> 0)"

definition flagged :: "xr_session option \<Rightarrow> bool" where
  "flagged s = (case s of None \<Rightarrow> False | Some x \<Rightarrow> hasMediaLayer x)"

definition session_layers :: "xr_session option \<Rightarrow> jsval list option" where
  "session_layers s = (case s of None \<Rightarrow> None | Some x \<Rightarrow> layers x)"

definition bootstrap_effect :: "effect \<Rightarrow> bool" where
  "bootstrap_effect x =
     (case x of BootstrapEntered \<Rightarrow> True | CreateMediaLayer _ _ \<Rightarrow> True
      | UpdateRenderState _ \<Rightarrow> True | Play _ \<Rightarrow> True | Called _ \<Rightarrow> True | _ \<Rightarrow> False)"

definition bootstrap_trace :: "effect list \<Rightarrow> effect list" where
  "bootstrap_trace xs = filter bootstrap_effect xs"

definition publishes :: "effect \<Rightarrow> bool" where
  "publishes x = (case x of UpdateRenderState _ \<Rightarrow> True | Play _ \<Rightarrow> True | _ \<Rightarrow> False)"

definition play_counts :: "(string \<times> video_element) list \<Rightarrow> (string \<times> nat) list" where
  "play_counts vs = map (\<lambda>(k, v). (k, play_calls v)) vs"

definition is_settlement :: "mevent \<Rightarrow> bool" where
  "is_settlement e = (case e of FactorySettled _ \<Rightarrow> True | _ \<Rightarrow> False)"

definition awaiting :: "bootstrap \<Rightarrow> bool" where
  "awaiting b = (case b of AwaitingEquirect \<Rightarrow> True | AwaitingQuad _ \<Rightarrow> True | _ \<Rightarrow> False)"

text \<open>
  \<open>bview\<close> collects what the bootstrap reads and writes.  \<open>reachable_ok\<close> describes the
  states a run can reach from the constructor's state, by the position of the
  asynchronous block; \<open>pc0\<close> and \<open>ls0\<close> are the play counts and the layer list at the
  start.
\<close>

definition bview ::
  "multi_app \<Rightarrow>
   xr_session option \<times> (string \<times> nat) list \<times> jsval \<times> jsval \<times>
   (string \<times> media_layer) list \<times> bootstrap \<times> effect list" where
  "bview a = (xrSession a, play_counts (videos a), videos_get a ''equirect'', videos_get a ''quad'',
              mediaLayers a, bootstrap a, bootstrap_trace (effects a))"

definition entered_trace :: "multi_app \<Rightarrow> effect list" where
  "entered_trace a = [BootstrapEntered, CreateMediaLayer (videos_get a ''equirect'') EQUIRECT_LAYER]"

definition awaiting_quad_trace :: "multi_app \<Rightarrow> effect list" where
  "awaiting_quad_trace a =
     entered_trace a @ [CreateMediaLayer (videos_get a ''quad'') QUAD_LAYER]"

definition unpublished :: "(string \<times> nat) list \<Rightarrow> jsval list option \<Rightarrow> multi_app \<Rightarrow> bool" where
  "unpublished pc0 ls0 a =
     (play_counts (videos a) = pc0 \<and> (\<forall>s. xrSession a = Some s \<longrightarrow> layers s = ls0))"

definition reachable_ok :: "(string \<times> nat) list \<Rightarrow> jsval list option \<Rightarrow> multi_app \<Rightarrow> bool" where
  "reachable_ok pc0 ls0 a =
     (case bootstrap a of
        NotStarted \<Rightarrow>
          bootstrap_trace (effects a) = [] \<and> mediaLayers a = [] \<and> unpublished pc0 ls0 a
      | AwaitingEquirect \<Rightarrow>
          flagged (xrSession a) \<and> bootstrap_trace (effects a) = entered_trace a \<and>
          mediaLayers a = [] \<and> unpublished pc0 ls0 a
      | AwaitingQuad l \<Rightarrow>
          flagged (xrSession a) \<and> bootstrap_trace (effects a) = awaiting_quad_trace a \<and>
          mediaLayers a = [(''equirect'', l)] \<and> unpublished pc0 ls0 a
      | Failed e \<Rightarrow>
          flagged (xrSession a) \<and>
          (bootstrap_trace (effects a) = entered_trace a \<or>
           bootstrap_trace (effects a) = awaiting_quad_trace a) \<and>
          unpublished pc0 ls0 a
      | Finished \<Rightarrow>
          flagged (xrSession a) \<and>
          (\<exists>eq qd ls. mediaLayers a = [(''equirect'', eq), (''quad'', qd)] \<and> ls0 = Some ls \<and>
             (\<forall>s. xrSession a = Some s \<longrightarrow> layers s = Some [layer eq, layer qd, first_layer ls]) \<and>
             play_counts (videos a) = map (\<lambda>(k, n). (k, Suc n)) pc0 \<and>
             bootstrap_trace (effects a) =
               awaiting_quad_trace a @ [UpdateRenderState [layer eq, layer qd, first_layer ls]] @
               map (\<lambda>(k, n). Play k) pc0))"

subsection \<open>Example states\<close>

text \<open>
  Concrete layers, videos and a session, a ray caster that hits nothing and a media
  binding that answers every call with the same layer handle.
\<close>

definition example_equirect :: media_layer where
  "example_equirect =
     \<lparr>layer = JObj 11, toolbarGroup = 1, objects = [2, 3], glassLayer = False, glass = None\<rparr>"

definition example_quad :: media_layer where
  "example_quad =
     \<lparr>layer = JObj 12, toolbarGroup = 4, objects = [5, 6], glassLayer = True, glass = Some 7\<rparr>"

definition example_video :: "nat \<Rightarrow> nat \<Rightarrow> video_element" where
  "example_video i r =
     \<lparr>element_id = i, currentTime = 3, duration = 12, readyState = r, play_calls = 0\<rparr>"

definition example_session :: xr_session where
  "example_session = \<lparr>layers = Some [JObj 100], hasMediaLayer = False\<rparr>"

definition no_hits :: "obj list \<Rightarrow> hit list" where
  "no_hits objs = []"

definition no_hits_any :: "nat \<Rightarrow> obj list \<Rightarrow> hit list" where
  "no_hits_any controller = no_hits"

definition example_binding :: "call \<Rightarrow> error + jsval" where
  "example_binding c = Inr (JObj 9)"

definition example_multi :: multi_app where
  "example_multi = multi_initial (example_video 0 4) (example_video 1 4) (Some example_session)"

definition example_bootstrapped :: multi_app where
  "example_bootstrapped =
     mrun example_multi
       [MFrame True no_hits_any, FactorySettled (Inr example_equirect),
        FactorySettled (Inr example_quad)]"

definition example_single :: single_app where
  "example_single = single_initial (Ext 0) (example_video 0 4) (Some example_session)"

section \<open>Properties of the layer manager\<close>

lemma this_get_static_names:
  "this_get this ''QUAD_LAYER'' = JUndefined" "this_get this ''EQUIRECT_LAYER'' = JUndefined"
  by (simp_all add: this_get_def prototype_members_def)

lemma createLayer_rejects_defined_layerType:
  "layerType \<noteq> JUndefined \<Longrightarrow> fails_fast (createLayer this r b v layerType opts)"
  by (simp add: createLayer_def this_get_static_names fails_fast_def)

text \<open>
  C1 (evaluation at the failing input).  A call whose layer type is \<open>undefined\<close>, which is
  neither \<open>QUAD_LAYER\<close> nor \<open>EQUIRECT_LAYER\<close>, passes the validity check: the guard compares
  the argument with \<^verbatim>\<open>this.QUAD_LAYER\<close> and \<^verbatim>\<open>this.EQUIRECT_LAYER\<close>, both \<open>undefined\<close> on an
  instance.  The call requests the reference space and resolves with \<open>undefined\<close>; it does
  not fail, and asynchronous work is started.
\<close>

theorem createLayer_undefined_layerType_requests_reference_space:
  "JUndefined \<notin> {QUAD_LAYER, EQUIRECT_LAYER} \<and>
   createLayer this (Inr refSpace) binding v JUndefined opts =
     ([RequestReferenceSpace ''local''], Inr JUndefined) \<and>
   \<not> fails_fast (createLayer this (Inr refSpace) binding v JUndefined opts)"
  by (simp add: createLayer_def this_get_static_names fails_fast_def QUAD_LAYER_def EQUIRECT_LAYER_def)

section \<open>Properties of the progress bar\<close>

text \<open>
  C6.  For a video with a positive duration and a current time between 0 and the
  duration, after \<open>updateProgressBar\<close> the played (red) segment has horizontal scale
  \<open>(currentTime / duration) * barWidth\<close>, the remaining (white) segment has
  \<open>barWidth\<close> minus that, the two scales add up to \<open>barWidth\<close>, the played segment starts
  at the left end of the bar and the remaining segment ends at its right end.
\<close>

theorem updateProgressBar_segments_fill_bar:
  assumes "0 < duration (video a)"
    and "0 \<le> currentTime (video a)" and "currentTime (video a) \<le> duration (video a)"
  shows "scale_x (redProgressBar (updateProgressBar a)) = Some (played_scale a) \<and>
         scale_x (whiteProgressBar (updateProgressBar a)) = Some (barWidth - played_scale a) \<and>
         combined_scale (updateProgressBar a) = Some barWidth \<and>
         left_edge (redProgressBar (updateProgressBar a)) = Some (- (barWidth / 2)) \<and>
         right_edge (whiteProgressBar (updateProgressBar a)) = Some (barWidth / 2)"
proof -
  from assms have d: "duration (video a) \<noteq> 0" by simp
  have red: "scale_x (redProgressBar (updateProgressBar a)) = Some (played_scale a)"
    using d by (simp add: updateProgressBar_def js_div_def played_scale_def barWidth_def)
  have white: "scale_x (whiteProgressBar (updateProgressBar a)) = Some (barWidth - played_scale a)"
    using d by (simp add: updateProgressBar_def js_div_def played_scale_def barWidth_def)
  have sum: "combined_scale (updateProgressBar a) = Some barWidth"
    using red white by (simp add: combined_scale_def)
  have "position_x (redProgressBar (updateProgressBar a)) = Some (- ((2 - played_scale a) / 2))"
    using d by (simp add: updateProgressBar_def js_div_def played_scale_def barWidth_def)
  with red have left: "left_edge (redProgressBar (updateProgressBar a)) = Some (- (barWidth / 2))"
    by (simp add: left_edge_def geometry_width_def barWidth_def field_simps)
  have "position_x (whiteProgressBar (updateProgressBar a)) = Some (played_scale a / 2)"
    using d by (simp add: updateProgressBar_def js_div_def played_scale_def barWidth_def)
  with white have right: "right_edge (whiteProgressBar (updateProgressBar a)) = Some (barWidth / 2)"
    by (simp add: right_edge_def geometry_width_def barWidth_def field_simps)
  from red white sum left right show ?thesis by simp
qed

theorem updateProgressBar_segments_fill_bar_witness:
  "scale_x (redProgressBar (updateProgressBar
      (single_initial (Ext 0)
         \<lparr>element_id = 0, currentTime = 3, duration = 12, readyState = 4, play_calls = 0\<rparr> None)))
     = Some (1 / 2) \<and>
   combined_scale (updateProgressBar
      (single_initial (Ext 0)
         \<lparr>element_id = 0, currentTime = 3, duration = 12, readyState = 4, play_calls = 0\<rparr> None))
     = Some 2"
  using updateProgressBar_segments_fill_bar [of "single_initial (Ext 0)
         \<lparr>element_id = 0, currentTime = 3, duration = 12, readyState = 4, play_calls = 0\<rparr> None"]
  by (simp add: single_initial_def played_scale_def barWidth_def)

text \<open>
  C7.  For a positive duration and a position \<open>x\<close> on the bar, \<open>setVideoCurrentTime x\<close>
  sets the current time to \<open>((x + barWidth / 2) / barWidth) * duration\<close>, and the
  progress-bar update that follows gives the played segment the scale \<open>x + barWidth / 2\<close>.
\<close>

theorem scrub_then_update_round_trip:
  assumes "0 < duration (video a)"
    and "- (barWidth / 2) \<le> x" and "x \<le> barWidth / 2"
  shows "currentTime (video (setVideoCurrentTime x a)) =
           ((x + barWidth / 2) / barWidth) * duration (video a) \<and>
         duration (video (setVideoCurrentTime x a)) = duration (video a) \<and>
         scale_x (redProgressBar (updateProgressBar (setVideoCurrentTime x a))) =
           Some (x + barWidth / 2)"
  using assms
  by (simp add: setVideoCurrentTime_def updateProgressBar_def js_div_def barWidth_def)

theorem scrub_then_update_round_trip_witness:
  "scale_x (redProgressBar (updateProgressBar (setVideoCurrentTime (1 / 2)
      (single_initial (Ext 0)
         \<lparr>element_id = 0, currentTime = 3, duration = 12, readyState = 4, play_calls = 0\<rparr> None))))
     = Some (3 / 2) \<and>
   currentTime (video (setVideoCurrentTime (1 / 2)
      (single_initial (Ext 0)
         \<lparr>element_id = 0, currentTime = 3, duration = 12, readyState = 4, play_calls = 0\<rparr> None)))
     = 9"
  using scrub_then_update_round_trip [of "single_initial (Ext 0)
         \<lparr>element_id = 0, currentTime = 3, duration = 12, readyState = 4, play_calls = 0\<rparr> None" "1 / 2"]
  by (simp add: single_initial_def barWidth_def)

section \<open>The call sequence on the scene\<close>

lemma added_twice_append:
  "added_twice x b (os @ os') = (added_twice x b os \<or> added_twice x (last_added x b os) os')"
  by (induction x b os rule: added_twice.induct) auto

lemma last_added_append:
  "last_added x b (os @ os') = last_added x (last_added x b os) os'"
  by (induction x b os rule: last_added.induct) auto

lemma untouched_ops:
  assumes "Add x \<notin> set os" and "Remove x \<notin> set os"
  shows "\<not> added_twice x b os" and "last_added x b os = b"
  using assms by (induction x b os rule: added_twice.induct) auto

lemma single_step_ops:
  "\<exists>os. ops (scene (step binding a e)) = ops (scene a) @ os \<and>
        appToolbarGroup (step binding a e) = appToolbarGroup a \<and>
        (os = [] \<and> isToolbarVisible (step binding a e) = isToolbarVisible a \<or>
         os = [Add (appToolbarGroup a)] \<and> \<not> isToolbarVisible a \<and> isToolbarVisible (step binding a e) \<or>
         os = [Remove (appToolbarGroup a)])"
  by (cases e)
     (auto simp: step_def render_def updateProgressBar_def onReferenceSpace_def Let_def
        handleToolbarIntersection_def setVideoCurrentTime_def onDisconnected_def scene_add_def scene_remove_def
        split: option.splits sum.splits)

lemma added_twice_mono: "added_twice x False os \<Longrightarrow> added_twice x b os"
  by (induction x b os rule: added_twice.induct) (auto split: if_splits)

lemma last_added_mono: "last_added x False os \<Longrightarrow> last_added x b os"
  by (induction x b os rule: last_added.induct) (auto split: if_splits)

lemma toolbar_ops_okI:
  assumes "ops (scene a') = ops (scene a) @ os"
    and "\<not> added_twice x (visible a k) os"
    and "last_added x (visible a k) os \<Longrightarrow> visible a' k"
  shows "toolbar_ops_ok x k a a'"
  using assms by (simp add: toolbar_ops_ok_def ops_since_def)

lemma toolbar_ops_okD:
  assumes "toolbar_ops_ok x k a a'"
  shows "\<exists>os. ops (scene a') = ops (scene a) @ os \<and>
              \<not> added_twice x (visible a k) os \<and>
              (last_added x (visible a k) os \<longrightarrow> visible a' k)"
proof -
  let ?os = "ops_since (scene a) (scene a')"
  have "ops (scene a') = take (length (ops (scene a))) (ops (scene a')) @ ?os"
    by (simp add: ops_since_def)
  with assms have "ops (scene a') = ops (scene a) @ ?os" by (simp add: toolbar_ops_ok_def)
  moreover from assms have "\<not> added_twice x (visible a k) ?os"
    and "last_added x (visible a k) ?os \<longrightarrow> visible a' k"
    by (simp_all add: toolbar_ops_ok_def)
  ultimately show ?thesis by blast
qed

lemma toolbar_ops_ok_refl: "toolbar_ops_ok x k a a"
  by (rule toolbar_ops_okI [where os = "[]"]) simp_all

lemma toolbar_ops_ok_trans:
  assumes "toolbar_ops_ok x k a a1" and "toolbar_ops_ok x k a1 a2"
  shows "toolbar_ops_ok x k a a2"
proof -
  from toolbar_ops_okD [OF assms(1)] obtain os1 where 1: "ops (scene a1) = ops (scene a) @ os1"
    "\<not> added_twice x (visible a k) os1" "last_added x (visible a k) os1 \<Longrightarrow> visible a1 k"
    by blast
  from toolbar_ops_okD [OF assms(2)] obtain os2 where 2: "ops (scene a2) = ops (scene a1) @ os2"
    "\<not> added_twice x (visible a1 k) os2" "last_added x (visible a1 k) os2 \<Longrightarrow> visible a2 k"
    by blast
  have flag: "last_added x (visible a k) os1 \<Longrightarrow> visible a1 k" by (rule 1(3))
  have tw: "\<not> added_twice x (last_added x (visible a k) os1) os2"
  proof (cases "last_added x (visible a k) os1")
    case True with flag 2(2) show ?thesis by simp
  next
    case False with 2(2) added_twice_mono [of x os2 "visible a1 k"] show ?thesis by auto
  qed
  have la: "last_added x (last_added x (visible a k) os1) os2 \<Longrightarrow> visible a2 k"
  proof (cases "last_added x (visible a k) os1")
    case True
    assume "last_added x (last_added x (visible a k) os1) os2"
    with True flag 2(3) show ?thesis by simp
  next
    case False
    assume "last_added x (last_added x (visible a k) os1) os2"
    with False have "last_added x False os2" by simp
    then have "last_added x (visible a1 k) os2" by (rule last_added_mono)
    then show ?thesis by (rule 2(3))
  qed
  show ?thesis
  proof (rule toolbar_ops_okI [where os = "os1 @ os2"])
    show "ops (scene a2) = ops (scene a) @ os1 @ os2" using 1(1) 2(1) by simp
    show "\<not> added_twice x (visible a k) (os1 @ os2)" using 1(2) tw by (simp add: added_twice_append)
    show "last_added x (visible a k) (os1 @ os2) \<Longrightarrow> visible a2 k" using la by (simp add: last_added_append)
  qed
qed

lemma areAllToolbarsHidden_visible:
  assumes "layerToolbarVisible a = Some m" and "(k, l) \<in> set (mediaLayers a)" and "m k = Some True"
  shows "areAllToolbarsHidden a = Inr False"
  using assms by (auto simp: areAllToolbarsHidden_def list_all_iff)

lemma handleToolbarIntersections_visible:
  assumes "layerToolbarVisible a = Some m" and "(k, l) \<in> set (mediaLayers a)" and "m k = Some True"
  shows "handleToolbarIntersections cast c (Some os) a =
           (case cast os of
              [] \<Rightarrow> (a, Inr (Some []))
            | h # _ \<Rightarrow>
                (a\<lparr>scene := scene_add (Some (IntersectPoint c)) (scene a),
                   intersectPointPosition := (intersectPointPosition a)
                     (c \<mapsto> (point_x h, point_y h, point_z h + 5 / 100))\<rparr>,
                 Inr (Some (cast os))))"
  using areAllToolbarsHidden_visible [OF assms]
  by (simp add: handleToolbarIntersections_def Let_def split: list.splits)

lemma selectStartLayer_hidden:
  assumes "layerToolbarVisible a = Some m" and "m k \<noteq> Some True"
  shows "selectStartLayer cast c k l a =
           (a\<lparr>layerToolbarVisible := Some (m(k \<mapsto> True)),
              scene := (let g = scene_add (Some (Ext (toolbarGroup l))) (scene a)
                        in if glassLayer l then scene_add (map_option Ext (glass l)) g else g)\<rparr>,
            None)"
  using assms by (simp add: selectStartLayer_def)

lemma selectStartLayer_visible_no_hit:
  assumes "layerToolbarVisible a = Some m" and "(k, l) \<in> set (mediaLayers a)" and "m k = Some True"
    and "cast (map Ext (objects l)) = []"
  shows "selectStartLayer cast c k l a =
           (a\<lparr>layerToolbarVisible := Some (m(k \<mapsto> False)),
              scene := scene_remove (map_option Ext (glass l))
                         (scene_remove (Some (Ext (toolbarGroup l))) (scene a))\<rparr>,
            None)"
  using assms
  by (simp add: selectStartLayer_def handleToolbarIntersections_visible [OF assms(1-3)])

lemma selectStartLayer_visible_hit:
  assumes "layerToolbarVisible a = Some m" and "(k, l) \<in> set (mediaLayers a)" and "m k = Some True"
    and "cast (map Ext (objects l)) = h # hs" and "glassLayer l \<longrightarrow> glass l \<noteq> None"
  shows "selectStartLayer cast c k l a =
           (a\<lparr>scene := (let g = scene_add (Some (IntersectPoint c)) (scene a)
                        in if glassLayer l
                           then g\<lparr>parent := (parent g)(Ext (the (glass l)) \<mapsto> Controller c),
                                  ops := ops g @ [Attach c (Ext (the (glass l)))]\<rparr>
                           else g),
              intersectPointPosition := (intersectPointPosition a)
                (c \<mapsto> (point_x h, point_y h, point_z h + 5 / 100)),
              effects := effects a @ [LayerUpdate k (h # hs)]\<rparr>,
            None)"
  using assms
  by (auto simp: selectStartLayer_def handleToolbarIntersections_visible [OF assms(1-3)]
      controller_attach_def Let_def)

lemma selectStartLayer_ok:
  assumes vis: "layerToolbarVisible a = Some m" and mem: "(k2, l2) \<in> set (mediaLayers a)"
    and gl: "glassLayer l2 \<longrightarrow> glass l2 \<noteq> None"
    and g: "glass l2 \<noteq> Some t" and other: "k2 \<noteq> k \<longrightarrow> toolbarGroup l2 \<noteq> t"
    and same: "k2 = k \<longrightarrow> toolbarGroup l2 = t"
  shows "\<exists>a'. selectStartLayer cast c k2 l2 a = (a', None) \<and>
              mediaLayers a' = mediaLayers a \<and> layerToolbarVisible a' \<noteq> None \<and>
              toolbar_ops_ok (Ext t) k a a' \<and>
              (k2 \<noteq> k \<longrightarrow> visible a' k = visible a k \<and>
                 parent (scene a') (Ext t) = parent (scene a) (Ext t))"
proof (cases "m k2 = Some True")
  case False
  note eq = selectStartLayer_hidden [where cast = cast and c = c and l = l2, OF vis False]
  let ?a' = "fst (selectStartLayer cast c k2 l2 a)"
  have ops': "ops (scene ?a') = ops (scene a) @
      (Add (Ext (toolbarGroup l2)) # (if glassLayer l2 then (case glass l2 of None \<Rightarrow> [] | Some x \<Rightarrow> [Add (Ext x)]) else []))"
    by (simp add: eq scene_add_def Let_def split: option.splits)
  have v': "visible ?a' k = (if k2 = k then True else visible a k)"
    by (simp add: eq visible_def vis)
  have va: "k2 = k \<Longrightarrow> \<not> visible a k" using False by (simp add: visible_def vis)
  have ok: "toolbar_ops_ok (Ext t) k a ?a'"
    by (rule toolbar_ops_okI [OF ops']) (use g other same v' va in \<open>auto split: option.splits if_splits\<close>)
  have par: "k2 \<noteq> k \<Longrightarrow> parent (scene ?a') (Ext t) = parent (scene a) (Ext t)"
    using g other by (auto simp: eq scene_add_def Let_def split: option.splits)
  show ?thesis using ok par v' by (simp add: eq)
next
  case True
  show ?thesis
  proof (cases "cast (map Ext (objects l2))")
    case Nil
    note eq = selectStartLayer_visible_no_hit [where cast = cast and c = c, OF vis mem True Nil]
    let ?a' = "fst (selectStartLayer cast c k2 l2 a)"
    have ops': "ops (scene ?a') = ops (scene a) @
        (Remove (Ext (toolbarGroup l2)) # (case glass l2 of None \<Rightarrow> [] | Some x \<Rightarrow> [Remove (Ext x)]))"
      by (simp add: eq scene_remove_def split: option.splits)
    have v': "visible ?a' k = (if k2 = k then False else visible a k)"
      by (simp add: eq visible_def vis)
    have ok: "toolbar_ops_ok (Ext t) k a ?a'"
      by (rule toolbar_ops_okI [OF ops']) (use g other same v' in \<open>auto split: option.splits if_splits\<close>)
    have par: "k2 \<noteq> k \<Longrightarrow> parent (scene ?a') (Ext t) = parent (scene a) (Ext t)"
      using g other by (auto simp: eq scene_remove_def split: option.splits)
    show ?thesis using ok par v' by (simp add: eq)
  next
    case (Cons h hs)
    note eq = selectStartLayer_visible_hit [where cast = cast and c = c, OF vis mem True Cons gl]
    let ?a' = "fst (selectStartLayer cast c k2 l2 a)"
    have ops': "ops (scene ?a') = ops (scene a) @
        (Add (IntersectPoint c) # (if glassLayer l2 then [Attach c (Ext (the (glass l2)))] else []))"
      by (simp add: eq scene_add_def Let_def)
    have v': "visible ?a' k = visible a k"
      by (simp add: eq visible_def vis)
    have ok: "toolbar_ops_ok (Ext t) k a ?a'"
      by (rule toolbar_ops_okI [OF ops']) (use v' in \<open>auto split: if_splits\<close>)
    have par: "k2 \<noteq> k \<Longrightarrow> parent (scene ?a') (Ext t) = parent (scene a) (Ext t)"
      using g gl by (auto simp: eq scene_add_def Let_def)
    show ?thesis using ok par v' by (simp add: eq vis)
  qed
qed

lemma selectStartLayers_ok:
  assumes "layerToolbarVisible a \<noteq> None" and "set rest \<subseteq> set (mediaLayers a)"
    and "list_all (layer_ok k t) rest"
  shows "\<exists>a'. selectStartLayers cast c rest a = (a', None) \<and>
              mediaLayers a' = mediaLayers a \<and> layerToolbarVisible a' \<noteq> None \<and>
              toolbar_ops_ok (Ext t) k a a' \<and>
              (k \<notin> fst ` set rest \<longrightarrow> visible a' k = visible a k \<and>
                 parent (scene a') (Ext t) = parent (scene a) (Ext t))"
  using assms
proof (induction rest arbitrary: a)
  case Nil
  then show ?case by (simp add: toolbar_ops_ok_refl)
next
  case (Cons p rest)
  obtain k2 l2 where p: "p = (k2, l2)" by (cases p)
  from Cons.prems(1) obtain m where vis: "layerToolbarVisible a = Some m" by auto
  from Cons.prems(2) p have mem: "(k2, l2) \<in> set (mediaLayers a)" by simp
  from Cons.prems(3) p have lo: "glassLayer l2 \<longrightarrow> glass l2 \<noteq> None" "glass l2 \<noteq> Some t"
    "k2 \<noteq> k \<longrightarrow> toolbarGroup l2 \<noteq> t" "k2 = k \<longrightarrow> toolbarGroup l2 = t"
    by (simp_all add: layer_ok_def)
  from selectStartLayer_ok [where cast = cast and c = c, OF vis mem lo]
  obtain a1 where a1: "selectStartLayer cast c k2 l2 a = (a1, None)"
    "mediaLayers a1 = mediaLayers a" "layerToolbarVisible a1 \<noteq> None"
    "toolbar_ops_ok (Ext t) k a a1"
    "k2 \<noteq> k \<longrightarrow> visible a1 k = visible a k \<and> parent (scene a1) (Ext t) = parent (scene a) (Ext t)"
    by blast
  from Cons.prems(2) a1(2) have sub: "set rest \<subseteq> set (mediaLayers a1)" by simp
  from Cons.prems(3) have la: "list_all (layer_ok k t) rest" by simp
  from Cons.IH [OF a1(3) sub la]
  obtain a' where a': "selectStartLayers cast c rest a1 = (a', None)"
    "mediaLayers a' = mediaLayers a1" "layerToolbarVisible a' \<noteq> None"
    "toolbar_ops_ok (Ext t) k a1 a'"
    "k \<notin> fst ` set rest \<longrightarrow> visible a' k = visible a1 k \<and>
       parent (scene a') (Ext t) = parent (scene a1) (Ext t)"
    by blast
  have "selectStartLayers cast c (p # rest) a = (a', None)"
    by (simp add: p a1(1) a'(1))
  moreover have "toolbar_ops_ok (Ext t) k a a'"
    using a1(4) a'(4) by (rule toolbar_ops_ok_trans)
  moreover have "k \<notin> fst ` set (p # rest) \<longrightarrow> visible a' k = visible a k \<and>
       parent (scene a') (Ext t) = parent (scene a) (Ext t)"
    using a1(5) a'(5) p by auto
  ultimately show ?case using a1(2) a'(2,3) by auto
qed

lemma selectStartLayers_target:
  assumes "layerToolbarVisible a \<noteq> None" and "set rest \<subseteq> set (mediaLayers a)"
    and "list_all (layer_ok k (toolbarGroup l)) rest"
    and "distinct (map fst rest)" and "(k, l) \<in> set rest"
  shows "\<exists>a'. selectStartLayers cast c rest a = (a', None) \<and>
              (\<not> visible a k \<longrightarrow>
                 visible a' k \<and> parent (scene a') (Ext (toolbarGroup l)) = Some Scene) \<and>
              (visible a k \<and> cast (map Ext (objects l)) = [] \<longrightarrow>
                 \<not> visible a' k \<and> parent (scene a') (Ext (toolbarGroup l)) \<noteq> Some Scene)"
  using assms
proof (induction rest arbitrary: a)
  case Nil
  then show ?case by simp
next
  case (Cons p rest)
  let ?t = "toolbarGroup l"
  obtain k2 l2 where p: "p = (k2, l2)" by (cases p)
  from Cons.prems(1) obtain m where vis: "layerToolbarVisible a = Some m" by auto
  from Cons.prems(2) p have mem: "(k2, l2) \<in> set (mediaLayers a)" by simp
  from Cons.prems(3) p have lo: "glassLayer l2 \<longrightarrow> glass l2 \<noteq> None" "glass l2 \<noteq> Some ?t"
    "k2 \<noteq> k \<longrightarrow> toolbarGroup l2 \<noteq> ?t" "k2 = k \<longrightarrow> toolbarGroup l2 = ?t"
    by (simp_all add: layer_ok_def)
  from selectStartLayer_ok [where cast = cast and c = c, OF vis mem lo]
  obtain a1 where a1: "selectStartLayer cast c k2 l2 a = (a1, None)"
    "mediaLayers a1 = mediaLayers a" "layerToolbarVisible a1 \<noteq> None"
    "k2 \<noteq> k \<longrightarrow> visible a1 k = visible a k \<and> parent (scene a1) (Ext ?t) = parent (scene a) (Ext ?t)"
    by blast
  from Cons.prems(2) a1(2) have sub: "set rest \<subseteq> set (mediaLayers a1)" by simp
  from Cons.prems(3) have la: "list_all (layer_ok k ?t) rest" by simp
  from Cons.prems(4) have dist: "distinct (map fst rest)" and notin: "k2 \<notin> fst ` set rest"
    using p by auto
  show ?case
  proof (cases "k2 = k")
    case True
    with Cons.prems(5) p notin have l2: "l2 = l" by force
    from selectStartLayers_ok [where cast = cast and c = c, OF a1(3) sub la]
    obtain a' where a': "selectStartLayers cast c rest a1 = (a', None)"
      "k \<notin> fst ` set rest \<longrightarrow> visible a' k = visible a1 k \<and>
         parent (scene a') (Ext ?t) = parent (scene a1) (Ext ?t)"
      by blast
    have run: "selectStartLayers cast c (p # rest) a = (a', None)"
      by (simp add: p a1(1) a'(1))
    have keep: "visible a' k = visible a1 k" "parent (scene a') (Ext ?t) = parent (scene a1) (Ext ?t)"
      using a'(2) notin True by auto
    have hidden: "\<not> visible a k \<Longrightarrow> visible a1 k \<and> parent (scene a1) (Ext ?t) = Some Scene"
    proof -
      assume "\<not> visible a k"
      then have h: "m k \<noteq> Some True" by (simp add: visible_def vis)
      from selectStartLayer_hidden [where cast = cast and c = c and l = l, OF vis h] a1(1) True l2
      have "a1 = a\<lparr>layerToolbarVisible := Some (m(k \<mapsto> True)),
              scene := (let g = scene_add (Some (Ext ?t)) (scene a)
                        in if glassLayer l then scene_add (map_option Ext (glass l)) g else g)\<rparr>"
        by simp
      then show ?thesis
        by (auto simp: visible_def scene_add_def Let_def split: option.splits)
    qed
    have shown: "visible a k \<and> cast (map Ext (objects l)) = [] \<Longrightarrow>
                   \<not> visible a1 k \<and> parent (scene a1) (Ext ?t) \<noteq> Some Scene"
    proof -
      assume as: "visible a k \<and> cast (map Ext (objects l)) = []"
      then have h: "m k = Some True" by (simp add: visible_def vis)
      from mem True l2 have mem': "(k, l) \<in> set (mediaLayers a)" by simp
      from as have nil: "cast (map Ext (objects l)) = []" by simp
      from selectStartLayer_visible_no_hit [where cast = cast and c = c, OF vis mem' h nil] a1(1) True l2
      have "a1 = a\<lparr>layerToolbarVisible := Some (m(k \<mapsto> False)),
              scene := scene_remove (map_option Ext (glass l))
                         (scene_remove (Some (Ext ?t)) (scene a))\<rparr>"
        by simp
      then show ?thesis using lo(2) l2
        by (auto simp: visible_def scene_remove_def split: option.splits)
    qed
    show ?thesis using run keep hidden shown by auto
  next
    case False
    with Cons.prems(5) p have mem_rest: "(k, l) \<in> set rest" by auto
    from Cons.IH [OF a1(3) sub la dist mem_rest]
    obtain a' where a': "selectStartLayers cast c rest a1 = (a', None)"
      "\<not> visible a1 k \<longrightarrow> visible a' k \<and> parent (scene a') (Ext ?t) = Some Scene"
      "visible a1 k \<and> cast (map Ext (objects l)) = [] \<longrightarrow>
         \<not> visible a' k \<and> parent (scene a') (Ext ?t) \<noteq> Some Scene"
      by blast
    have run: "selectStartLayers cast c (p # rest) a = (a', None)"
      by (simp add: p a1(1) a'(1))
    from a1(4) False have "visible a1 k = visible a k" by simp
    with run a'(2,3) show ?thesis by auto
  qed
qed

lemma shown_objects_Cons:
  "shown_objects ((k, l) # ls) =
     {Ext (toolbarGroup l)} \<union> (if glassLayer l then Ext ` set_option (glass l) else {}) \<union>
     shown_objects ls"
  by (simp add: shown_objects_def)

lemma selectStartLayers_all_hidden:
  assumes "layerToolbarVisible a = Some m" and "list_all (\<lambda>(k, l). m k \<noteq> Some True) rest"
    and "distinct (map fst rest)"
  shows "\<exists>a' m'. selectStartLayers cast c rest a = (a', None) \<and>
           layerToolbarVisible a' = Some m' \<and>
           (\<forall>k. m' k = (if k \<in> fst ` set rest then Some True else m k)) \<and>
           (\<forall>x. parent (scene a') x =
                  (if x \<in> shown_objects rest then Some Scene else parent (scene a) x))"
  using assms
proof (induction rest arbitrary: a m)
  case Nil
  then show ?case by (simp add: shown_objects_def)
next
  case (Cons p rest)
  obtain k l where p: "p = (k, l)" by (cases p)
  from Cons.prems(2) p have h: "m k \<noteq> Some True" by simp
  let ?a1 = "a\<lparr>layerToolbarVisible := Some (m(k \<mapsto> True)),
                scene := (let g = scene_add (Some (Ext (toolbarGroup l))) (scene a)
                          in if glassLayer l then scene_add (map_option Ext (glass l)) g else g)\<rparr>"
  have a1: "selectStartLayer cast c k l a = (?a1, None)"
    by (rule selectStartLayer_hidden [OF Cons.prems(1) h])
  have vis1: "layerToolbarVisible ?a1 = Some (m(k \<mapsto> True))" by simp
  from Cons.prems(3) p have notin: "k \<notin> fst ` set rest" and dist: "distinct (map fst rest)"
    by auto
  have hid: "list_all (\<lambda>(k', l'). (m(k \<mapsto> True)) k' \<noteq> Some True) rest"
    using Cons.prems(2) notin by (force simp: list_all_iff split: if_splits)
  from Cons.IH [OF vis1 hid dist]
  obtain a' m' where a': "selectStartLayers cast c rest ?a1 = (a', None)"
    "layerToolbarVisible a' = Some m'"
    "\<forall>k'. m' k' = (if k' \<in> fst ` set rest then Some True else (m(k \<mapsto> True)) k')"
    "\<forall>x. parent (scene a') x =
           (if x \<in> shown_objects rest then Some Scene else parent (scene ?a1) x)"
    by blast
  have par1: "\<And>x. parent (scene ?a1) x =
      (if x \<in> {Ext (toolbarGroup l)} \<union> (if glassLayer l then Ext ` set_option (glass l) else {})
       then Some Scene else parent (scene a) x)"
    by (auto simp: scene_add_def Let_def split: option.splits)
  have "selectStartLayers cast c (p # rest) a = (a', None)"
    by (simp add: p a1 a'(1))
  moreover have "\<forall>k'. m' k' = (if k' \<in> fst ` set (p # rest) then Some True else m k')"
    using a'(3) p by auto
  moreover have "\<forall>x. parent (scene a') x =
      (if x \<in> shown_objects (p # rest) then Some Scene else parent (scene a) x)"
    unfolding p shown_objects_Cons using a'(4) par1 by auto
  ultimately show ?case using a'(2) by blast
qed

lemma layer_ok_all:
  assumes "well_formed a" and "(k, l) \<in> set (mediaLayers a)" and "own_toolbar a k l"
  shows "list_all (layer_ok k (toolbarGroup l)) (mediaLayers a)"
proof -
  have "layer_ok k (toolbarGroup l) p" if "p \<in> set (mediaLayers a)" for p
  proof -
    obtain k2 l2 where p: "p = (k2, l2)" by (cases p)
    from assms(1) have d: "distinct (map fst (mediaLayers a))" by (simp add: well_formed_def)
    have "l2 = l" if "k2 = k"
      using d assms(2) \<open>p \<in> set (mediaLayers a)\<close> p that by (metis eq_key_imp_eq_value)
    moreover from assms(1) that p have "glassLayer l2 \<longrightarrow> glass l2 \<noteq> None"
      by (auto simp: well_formed_def list_all_iff)
    moreover from assms(3) that p have "glass l2 \<noteq> Some (toolbarGroup l)"
      "k2 \<noteq> k \<longrightarrow> toolbarGroup l2 \<noteq> toolbarGroup l"
      by (auto simp: own_toolbar_def list_all_iff)
    ultimately show ?thesis by (auto simp: layer_ok_def p)
  qed
  then show ?thesis by (simp add: list_all_iff)
qed

lemma selectEndLayers_ok:
  "mediaLayers (selectEndLayers c rest a) = mediaLayers a \<and>
   layerToolbarVisible (selectEndLayers c rest a) = layerToolbarVisible a \<and>
   toolbar_ops_ok x k a (selectEndLayers c rest a)"
proof (induction rest arbitrary: a)
  case Nil
  then show ?case by (simp add: toolbar_ops_ok_refl)
next
  case (Cons p rest)
  obtain k2 l2 where p: "p = (k2, l2)" by (cases p)
  let ?a1 = "if glassLayer l2
        then a\<lparr>effects := effects a @ [GlassLayerMove k2],
               scene := controller_remove c (map_option Ext (glass l2)) (scene a)\<rparr>
        else a"
  have "\<exists>os. ops (scene ?a1) = ops (scene a) @ os \<and> Add x \<notin> set os \<and> Remove x \<notin> set os"
    by (auto simp: controller_remove_def split: option.splits)
  then obtain os where os: "ops (scene ?a1) = ops (scene a) @ os" "Add x \<notin> set os" "Remove x \<notin> set os"
    by blast
  have v: "visible ?a1 k = visible a k" by (simp add: visible_def)
  have ok1: "toolbar_ops_ok x k a ?a1"
    by (rule toolbar_ops_okI [OF os(1)]) (use untouched_ops [OF os(2,3)] v in auto)
  have eq: "selectEndLayers c (p # rest) a = selectEndLayers c rest ?a1" by (simp add: p)
  from Cons.IH [of ?a1] ok1 show ?case
    unfolding eq by (auto intro: toolbar_ops_ok_trans)
qed

lemma mstep_controller_event:
  assumes "well_formed a" and "list_all (layer_ok k t) (mediaLayers a)" and "controller_event e"
  shows "well_formed (mstep a e) \<and> mediaLayers (mstep a e) = mediaLayers a \<and>
         toolbar_ops_ok (Ext t) k a (mstep a e)"
proof (cases e)
  case (MSelectStart c cast)
  from assms(1) have v: "layerToolbarVisible a \<noteq> None" by (simp add: well_formed_def)
  from selectStartLayers_ok [where cast = cast and c = c, OF v subset_refl assms(2)]
  obtain a' where a': "selectStartLayers cast c (mediaLayers a) a = (a', None)"
    "mediaLayers a' = mediaLayers a" "layerToolbarVisible a' \<noteq> None"
    "toolbar_ops_ok (Ext t) k a a'"
    by blast
  then have "mstep a e = a'" by (simp add: mstep_def MSelectStart handleSelectStart_def)
  with a' assms(1) show ?thesis by (simp add: well_formed_def)
next
  case (MSelectEnd c)
  then have "mstep a e = selectEndLayers c (mediaLayers a) a"
    by (simp add: mstep_def handleSelectEnd_def)
  with selectEndLayers_ok [of c "mediaLayers a" a "Ext t" k] assms(1)
  show ?thesis by (simp add: well_formed_def)
next
  case (MDisconnected c)
  then have "mstep a e = a"
    by (simp add: mstep_def onControllerDisconnected_def this_toolbarGroup_def scene_remove_def)
  with assms(1) show ?thesis by (simp add: toolbar_ops_ok_refl)
qed (use assms(3) in \<open>simp_all add: controller_event_def\<close>)

lemma mrun_controller_events:
  assumes "well_formed a" and "list_all (layer_ok k t) (mediaLayers a)"
    and "list_all controller_event es"
  shows "well_formed (mrun a es) \<and> mediaLayers (mrun a es) = mediaLayers a \<and>
         toolbar_ops_ok (Ext t) k a (mrun a es)"
  using assms(3)
proof (induction es rule: rev_induct)
  case Nil
  with assms(1) show ?case by (simp add: mrun_def toolbar_ops_ok_refl)
next
  case (snoc e es)
  then have IH: "well_formed (mrun a es)" "mediaLayers (mrun a es) = mediaLayers a"
    "toolbar_ops_ok (Ext t) k a (mrun a es)" and e: "controller_event e"
    by simp_all
  from assms(2) IH(2) have lo: "list_all (layer_ok k t) (mediaLayers (mrun a es))" by simp
  have run: "mrun a (es @ [e]) = mstep (mrun a es) e" by (simp add: mrun_def)
  from mstep_controller_event [OF IH(1) lo e] IH(2,3) show ?case
    unfolding run by (auto intro: toolbar_ops_ok_trans)
qed

section \<open>Toggling the toolbars\<close>

lemmas example_defs = example_equirect_def example_quad_def example_video_def example_session_def
  no_hits_def no_hits_any_def example_binding_def example_multi_def example_bootstrapped_def
  example_single_def

lemmas multi_defs = multi_initial_def mrun_def mstep_def renderM_def controllers_def
  handleToolbarIntersections_def areAllToolbarsHidden_def getIntersectPoint_def in_scene_def
  scene_add_def scene_remove_def isVideosReady_def videos_get_def updateLayersOnRender_def
  factorySettled_def finishBootstrap_def hideToolbars_def play_def first_layer_def
  handleSelectStart_def selectStartLayer_def handleSelectEnd_def onControllerDisconnected_def
  this_toolbarGroup_def controller_attach_def controller_remove_def
  EQUIRECT_LAYER_def QUAD_LAYER_def Let_def

lemma example_bootstrapped_fields:
  "mediaLayers example_bootstrapped = [(''equirect'', example_equirect), (''quad'', example_quad)]"
  "layerToolbarVisible example_bootstrapped = Some [''equirect'' \<mapsto> False, ''quad'' \<mapsto> False]"
  "ops (scene example_bootstrapped) = []"
  "parent (scene example_bootstrapped) = Map.empty"
  "bootstrap example_bootstrapped = Finished"
  by (simp_all add: example_defs multi_defs)

lemma single_run_ops:
  "\<exists>os. ops (scene (run b s es)) = ops (scene s) @ os \<and>
        appToolbarGroup (run b s es) = appToolbarGroup s \<and>
        \<not> added_twice (appToolbarGroup s) (isToolbarVisible s) os \<and>
        (last_added (appToolbarGroup s) (isToolbarVisible s) os \<longrightarrow> isToolbarVisible (run b s es))"
proof (induction es rule: rev_induct)
  case Nil
  show ?case by (simp add: run_def)
next
  case (snoc e es)
  let ?s1 = "run b s es"
  from snoc obtain os where os: "ops (scene ?s1) = ops (scene s) @ os"
    "appToolbarGroup ?s1 = appToolbarGroup s"
    "\<not> added_twice (appToolbarGroup s) (isToolbarVisible s) os"
    "last_added (appToolbarGroup s) (isToolbarVisible s) os \<longrightarrow> isToolbarVisible ?s1"
    by blast
  have run: "run b s (es @ [e]) = step b ?s1 e" by (simp add: run_def)
  from single_step_ops [of b ?s1 e] obtain os' where os':
    "ops (scene (step b ?s1 e)) = ops (scene ?s1) @ os'"
    "appToolbarGroup (step b ?s1 e) = appToolbarGroup ?s1"
    "os' = [] \<and> isToolbarVisible (step b ?s1 e) = isToolbarVisible ?s1 \<or>
     os' = [Add (appToolbarGroup ?s1)] \<and> \<not> isToolbarVisible ?s1 \<and> isToolbarVisible (step b ?s1 e) \<or>
     os' = [Remove (appToolbarGroup ?s1)]"
    by blast
  have "ops (scene (step b ?s1 e)) = ops (scene s) @ (os @ os')" using os(1) os'(1) by simp
  moreover have "\<not> added_twice (appToolbarGroup s) (isToolbarVisible s) (os @ os')"
    using os(2,3,4) os'(3) by (auto simp: added_twice_append)
  moreover have "last_added (appToolbarGroup s) (isToolbarVisible s) (os @ os') \<longrightarrow>
      isToolbarVisible (step b ?s1 e)"
    using os(2,4) os'(3) by (auto simp: last_added_append)
  ultimately show ?case unfolding run using os(2) os'(2) by metis
qed

lemma single_select_start_twice:
  assumes "\<not> isToolbarVisible s"
  shows "isToolbarVisible (step b s (SelectStart c hits)) \<and>
         in_scene (scene (step b s (SelectStart c hits))) (appToolbarGroup s) \<and>
         \<not> isToolbarVisible (step b (step b s (SelectStart c hits)) (SelectStart c2 [])) \<and>
         \<not> in_scene (scene (step b (step b s (SelectStart c hits)) (SelectStart c2 []))) (appToolbarGroup s)"
  using assms
  by (simp add: step_def handleToolbarIntersection_def scene_add_def scene_remove_def in_scene_def)

text \<open>
  C2.  Take a state of the multi-layer application whose visibility map exists, whose
  layers have distinct keys and an overlay object whenever they are draggable, and a
  layer whose toolbar group is not the toolbar group or the overlay of another layer.
  If that layer's toolbar is hidden, a select-start from any controller marks it visible
  and puts its toolbar group in the scene; a following select-start whose ray hits none
  of that layer's objects marks it hidden and takes the group out of the scene; and in
  the calls that any sequence of controller events makes on the scene, the group is never
  added twice without a removal in between.  The same three facts hold for the one toolbar
  of the single-layer application, there for any sequence of events.
\<close>

theorem select_start_toggles_toolbar:
  assumes "well_formed a" and "(k, l) \<in> set (mediaLayers a)" and "own_toolbar a k l"
    and "\<not> visible a k"
    and "cast2 (map Ext (objects l)) = []"
    and "list_all controller_event es"
    and "\<not> isToolbarVisible s"
  shows "(let a1 = mstep a (MSelectStart c1 cast1); a2 = mstep a1 (MSelectStart c2 cast2)
          in visible a1 k \<and> in_scene (scene a1) (Ext (toolbarGroup l)) \<and>
             \<not> visible a2 k \<and> \<not> in_scene (scene a2) (Ext (toolbarGroup l))) \<and>
         \<not> added_twice (Ext (toolbarGroup l)) False (ops_since (scene a) (scene (mrun a es))) \<and>
         (let s1 = step b s (SelectStart c1 hits); s2 = step b s1 (SelectStart c2 [])
          in isToolbarVisible s1 \<and> in_scene (scene s1) (appToolbarGroup s) \<and>
             \<not> isToolbarVisible s2 \<and> \<not> in_scene (scene s2) (appToolbarGroup s)) \<and>
         \<not> added_twice (appToolbarGroup s) False (ops_since (scene s) (scene (run b s evs)))"
proof -
  let ?t = "toolbarGroup l"
  have lo: "list_all (layer_ok k ?t) (mediaLayers a)" using assms(1-3) by (rule layer_ok_all)
  from assms(1) have v: "layerToolbarVisible a \<noteq> None" and d: "distinct (map fst (mediaLayers a))"
    by (simp_all add: well_formed_def)
  \<comment> \<open>the first select-start\<close>
  from selectStartLayers_target [where cast = cast1 and c = c1, OF v subset_refl lo d assms(2)] assms(4)
  obtain a1 where a1: "selectStartLayers cast1 c1 (mediaLayers a) a = (a1, None)"
    "visible a1 k" "parent (scene a1) (Ext ?t) = Some Scene"
    by blast
  then have s1: "mstep a (MSelectStart c1 cast1) = a1"
    by (simp add: mstep_def handleSelectStart_def)
  from mstep_controller_event [OF assms(1) lo, of "MSelectStart c1 cast1"] s1
  have wf1: "well_formed a1" and ml1: "mediaLayers a1 = mediaLayers a"
    by (simp_all add: controller_event_def)
  \<comment> \<open>the second select-start\<close>
  from wf1 have v1: "layerToolbarVisible a1 \<noteq> None" and d1: "distinct (map fst (mediaLayers a1))"
    by (simp_all add: well_formed_def)
  from lo ml1 have lo1: "list_all (layer_ok k ?t) (mediaLayers a1)" by simp
  from assms(2) ml1 have mem1: "(k, l) \<in> set (mediaLayers a1)" by simp
  from selectStartLayers_target [where cast = cast2 and c = c2, OF v1 subset_refl lo1 d1 mem1]
    a1(2) assms(5)
  obtain a2 where a2: "selectStartLayers cast2 c2 (mediaLayers a1) a1 = (a2, None)"
    "\<not> visible a2 k" "parent (scene a2) (Ext ?t) \<noteq> Some Scene"
    by blast
  then have s2: "mstep a1 (MSelectStart c2 cast2) = a2"
    by (simp add: mstep_def handleSelectStart_def)
  have multi_toggle: "let a1 = mstep a (MSelectStart c1 cast1); a2 = mstep a1 (MSelectStart c2 cast2)
          in visible a1 k \<and> in_scene (scene a1) (Ext ?t) \<and>
             \<not> visible a2 k \<and> \<not> in_scene (scene a2) (Ext ?t)"
    using a1(2,3) a2(2,3) by (simp add: s1 s2 in_scene_def)
  \<comment> \<open>any sequence of controller events\<close>
  from mrun_controller_events [OF assms(1) lo assms(6)]
  have "toolbar_ops_ok (Ext ?t) k a (mrun a es)" by simp
  with assms(4) have multi_once:
    "\<not> added_twice (Ext ?t) False (ops_since (scene a) (scene (mrun a es)))"
    by (simp add: toolbar_ops_ok_def)
  \<comment> \<open>the single-layer application\<close>
  have single_toggle: "let s1 = step b s (SelectStart c1 hits); s2 = step b s1 (SelectStart c2 [])
          in isToolbarVisible s1 \<and> in_scene (scene s1) (appToolbarGroup s) \<and>
             \<not> isToolbarVisible s2 \<and> \<not> in_scene (scene s2) (appToolbarGroup s)"
    using single_select_start_twice [OF assms(7)] by (simp add: Let_def)
  from single_run_ops [of b s evs] assms(7) have single_once:
    "\<not> added_twice (appToolbarGroup s) False (ops_since (scene s) (scene (run b s evs)))"
    by (auto simp: ops_since_def)
  from multi_toggle multi_once single_toggle single_once show ?thesis by blast
qed

lemma example_bootstrapped_well_formed:
  "well_formed example_bootstrapped"
  "(''quad'', example_quad) \<in> set (mediaLayers example_bootstrapped)"
  "own_toolbar example_bootstrapped ''quad'' example_quad"
  "\<not> visible example_bootstrapped ''quad''"
  by (simp_all add: well_formed_def own_toolbar_def visible_def example_bootstrapped_fields)
     (simp_all add: example_equirect_def example_quad_def)

theorem select_start_toggles_toolbar_witness:
  "well_formed example_bootstrapped \<and>
   (''quad'', example_quad) \<in> set (mediaLayers example_bootstrapped) \<and>
   own_toolbar example_bootstrapped ''quad'' example_quad \<and>
   \<not> visible example_bootstrapped ''quad'' \<and>
   no_hits (map Ext (objects example_quad)) = [] \<and>
   list_all controller_event [MSelectStart 0 no_hits, MSelectEnd 0, MDisconnected 1, MSelectStart 1 no_hits] \<and>
   \<not> isToolbarVisible example_single \<and>
   visible (mstep example_bootstrapped (MSelectStart 0 no_hits)) ''quad'' \<and>
   \<not> in_scene (scene (mstep (mstep example_bootstrapped (MSelectStart 0 no_hits)) (MSelectStart 1 no_hits)))
        (Ext (toolbarGroup example_quad)) \<and>
   \<not> added_twice (Ext (toolbarGroup example_quad)) False
        (ops_since (scene example_bootstrapped)
           (scene (mrun example_bootstrapped
              [MSelectStart 0 no_hits, MSelectEnd 0, MDisconnected 1, MSelectStart 1 no_hits]))) \<and>
   isToolbarVisible (step (\<lambda>c. Inr (JObj 9)) example_single (SelectStart 0 [])) \<and>
   \<not> added_twice (appToolbarGroup example_single) False
        (ops_since (scene example_single)
           (scene (run (\<lambda>c. Inr (JObj 9)) example_single [SelectStart 0 [], Disconnected 0, SelectStart 1 []])))"
proof -
  note h = example_bootstrapped_well_formed
  have h5: "no_hits (map Ext (objects example_quad)) = []" by (simp add: no_hits_def)
  have h6: "list_all controller_event
      [MSelectStart 0 no_hits, MSelectEnd 0, MDisconnected 1, MSelectStart 1 no_hits]"
    by (simp add: controller_event_def)
  have h7: "\<not> isToolbarVisible example_single" by (simp add: example_single_def single_initial_def)
  from select_start_toggles_toolbar [where ?c1.0 = 0 and ?c2.0 = 1 and ?cast1.0 = no_hits and ?cast2.0 = no_hits
      and b = "\<lambda>c. Inr (JObj 9)" and hits = "[]"
      and evs = "[SelectStart 0 [], Disconnected 0, SelectStart 1 []]",
      OF h(1) h(2) h(3) h(4) h5 h6 h7]
  show ?thesis using h h5 h6 h7 by (simp add: Let_def)
qed

text \<open>
  C10.  In the multi-layer application, when the visibility map exists and the toolbar of
  every managed layer is hidden, one select-start from one controller, whatever its ray
  hits, completes without an exception, marks every layer visible and leaves every layer's
  toolbar group, and the overlay of every draggable layer, in the scene.
\<close>

theorem select_start_shows_every_hidden_toolbar:
  assumes "layerToolbarVisible a \<noteq> None" and "distinct (map fst (mediaLayers a))"
    and "list_all (\<lambda>(k, l). \<not> visible a k) (mediaLayers a)"
  shows "snd (handleSelectStart cast c a) = None \<and>
         list_all (\<lambda>(k, l).
             visible (mstep a (MSelectStart c cast)) k \<and>
             in_scene (scene (mstep a (MSelectStart c cast))) (Ext (toolbarGroup l)) \<and>
             (glassLayer l \<longrightarrow>
                (case glass l of None \<Rightarrow> True
                 | Some g \<Rightarrow> in_scene (scene (mstep a (MSelectStart c cast))) (Ext g))))
           (mediaLayers a)"
proof -
  from assms(1) obtain m where m: "layerToolbarVisible a = Some m" by auto
  from assms(3) have hid: "list_all (\<lambda>(k, l). m k \<noteq> Some True) (mediaLayers a)"
    by (simp add: visible_def m)
  from selectStartLayers_all_hidden [where cast = cast and c = c, OF m hid assms(2)]
  obtain a' m' where a': "selectStartLayers cast c (mediaLayers a) a = (a', None)"
    "layerToolbarVisible a' = Some m'"
    "\<forall>k. m' k = (if k \<in> fst ` set (mediaLayers a) then Some True else m k)"
    "\<forall>x. parent (scene a') x =
           (if x \<in> shown_objects (mediaLayers a) then Some Scene else parent (scene a) x)"
    by blast
  have step: "mstep a (MSelectStart c cast) = a'" and noerr: "snd (handleSelectStart cast c a) = None"
    using a'(1) by (simp_all add: mstep_def handleSelectStart_def)
  have "visible a' k \<and> in_scene (scene a') (Ext (toolbarGroup l)) \<and>
        (glassLayer l \<longrightarrow> (case glass l of None \<Rightarrow> True | Some g \<Rightarrow> in_scene (scene a') (Ext g)))"
    if "(k, l) \<in> set (mediaLayers a)" for k l
  proof -
    from that have "k \<in> fst ` set (mediaLayers a)" by force
    with a'(2,3) have 1: "visible a' k" by (simp add: visible_def)
    from that have "Ext (toolbarGroup l) \<in> shown_objects (mediaLayers a)"
      by (auto simp: shown_objects_def)
    with a'(4) have 2: "in_scene (scene a') (Ext (toolbarGroup l))" by (simp add: in_scene_def)
    have 3: "in_scene (scene a') (Ext g)" if "glassLayer l" "glass l = Some g" for g
    proof -
      from that \<open>(k, l) \<in> set (mediaLayers a)\<close> have "Ext g \<in> shown_objects (mediaLayers a)"
        by (force simp: shown_objects_def)
      with a'(4) show ?thesis by (simp add: in_scene_def)
    qed
    from 1 2 3 show ?thesis by (auto split: option.splits)
  qed
  then show ?thesis unfolding step using noerr by (auto simp: list_all_iff)
qed

theorem select_start_shows_every_hidden_toolbar_witness:
  "layerToolbarVisible example_bootstrapped \<noteq> None \<and>
   distinct (map fst (mediaLayers example_bootstrapped)) \<and>
   list_all (\<lambda>(k, l). \<not> visible example_bootstrapped k) (mediaLayers example_bootstrapped) \<and>
   visible (mstep example_bootstrapped (MSelectStart 0 no_hits)) ''equirect'' \<and>
   visible (mstep example_bootstrapped (MSelectStart 0 no_hits)) ''quad'' \<and>
   in_scene (scene (mstep example_bootstrapped (MSelectStart 0 no_hits))) (Ext 1) \<and>
   in_scene (scene (mstep example_bootstrapped (MSelectStart 0 no_hits))) (Ext 4) \<and>
   in_scene (scene (mstep example_bootstrapped (MSelectStart 0 no_hits))) (Ext 7)"
proof -
  have h1: "layerToolbarVisible example_bootstrapped \<noteq> None"
    and h2: "distinct (map fst (mediaLayers example_bootstrapped))"
    and h3: "list_all (\<lambda>(k, l). \<not> visible example_bootstrapped k) (mediaLayers example_bootstrapped)"
    by (simp_all add: visible_def example_bootstrapped_fields)
  from select_start_shows_every_hidden_toolbar [OF h1 h2 h3, of no_hits 0]
  show ?thesis using h1 h2 h3
    by (simp add: example_bootstrapped_fields example_equirect_def example_quad_def)
qed

text \<open>
  C5 (evaluation at the failing input).  In the multi-layer application with both layers
  created and the toolbar of layer \<open>equirect\<close> made visible by a select-start, the toolbar
  group is in the scene, and it is still in the scene after a disconnected event of
  controller 0: the listener removes \<^verbatim>\<open>this.toolbarGroup\<close>, which is \<open>undefined\<close> in this
  application, so a disconnected event changes nothing at all.
\<close>

theorem multi_disconnected_keeps_toolbar_in_scene:
  "visible (mstep example_bootstrapped (MSelectStart 0 no_hits)) ''equirect'' \<and>
   in_scene (scene (mstep example_bootstrapped (MSelectStart 0 no_hits)))
     (Ext (toolbarGroup example_equirect)) \<and>
   in_scene (scene (mstep (mstep example_bootstrapped (MSelectStart 0 no_hits)) (MDisconnected 0)))
     (Ext (toolbarGroup example_equirect)) \<and>
   (\<forall>a c. mstep a (MDisconnected c) = a)"
proof -
  have id: "mstep a (MDisconnected c) = a" for a c
    by (simp add: mstep_def onControllerDisconnected_def this_toolbarGroup_def scene_remove_def)
  have h1: "layerToolbarVisible example_bootstrapped \<noteq> None"
    and h2: "distinct (map fst (mediaLayers example_bootstrapped))"
    and h3: "list_all (\<lambda>(k, l). \<not> visible example_bootstrapped k) (mediaLayers example_bootstrapped)"
    by (simp_all add: visible_def example_bootstrapped_fields)
  from selectStartLayers_all_hidden [where cast = no_hits and c = 0 and a = example_bootstrapped
      and rest = "mediaLayers example_bootstrapped"]
  have "visible (mstep example_bootstrapped (MSelectStart 0 no_hits)) ''equirect'' \<and>
        in_scene (scene (mstep example_bootstrapped (MSelectStart 0 no_hits)))
          (Ext (toolbarGroup example_equirect))"
    by (auto simp: example_bootstrapped_fields mstep_def handleSelectStart_def visible_def
        in_scene_def shown_objects_def example_equirect_def)
  then show ?thesis by (simp add: id)
qed

section \<open>The session bootstrap\<close>

lemma bootstrap_trace_append [simp]:
  "bootstrap_trace (xs @ ys) = bootstrap_trace xs @ bootstrap_trace ys"
  by (simp add: bootstrap_trace_def)

lemma bootstrap_trace_simps [simp]:
  "bootstrap_trace [] = []"
  "bootstrap_trace (BootstrapEntered # xs) = BootstrapEntered # bootstrap_trace xs"
  "bootstrap_trace (CreateMediaLayer v t # xs) = CreateMediaLayer v t # bootstrap_trace xs"
  "bootstrap_trace (UpdateRenderState ls # xs) = UpdateRenderState ls # bootstrap_trace xs"
  "bootstrap_trace (Play k # xs) = Play k # bootstrap_trace xs"
  "bootstrap_trace (Called c # xs) = Called c # bootstrap_trace xs"
  "bootstrap_trace (UpdateOnRender k # xs) = bootstrap_trace xs"
  "bootstrap_trace (LayerUpdate k hs # xs) = bootstrap_trace xs"
  "bootstrap_trace (GlassLayerMove k # xs) = bootstrap_trace xs"
  "bootstrap_trace (UiUpdate # xs) = bootstrap_trace xs"
  "bootstrap_trace (RenderScene # xs) = bootstrap_trace xs"
  "bootstrap_trace (Thrown e # xs) = bootstrap_trace xs"
  by (simp_all add: bootstrap_trace_def bootstrap_effect_def)

lemma bview_updates:
  "bview (a\<lparr>scene := g\<rparr>) = bview a"
  "bview (a\<lparr>layerToolbarVisible := m\<rparr>) = bview a"
  "bview (a\<lparr>intersectPointPosition := q\<rparr>) = bview a"
  "bootstrap_trace xs = [] \<Longrightarrow> bview (a\<lparr>effects := effects a @ xs\<rparr>) = bview a"
  by (simp_all add: bview_def videos_get_def)

lemma handleToolbarIntersections_frame:
  "\<exists>g q. fst (handleToolbarIntersections cast c objs a) =
           a\<lparr>scene := g, intersectPointPosition := q\<rparr>"
proof -
  have same: "\<exists>g q. a = a\<lparr>scene := g, intersectPointPosition := q\<rparr>"
  proof (intro exI)
    show "a = a\<lparr>scene := scene a, intersectPointPosition := intersectPointPosition a\<rparr>" by simp
  qed
  have rem: "\<exists>g q. a\<lparr>scene := g'\<rparr> = a\<lparr>scene := g, intersectPointPosition := q\<rparr>" for g'
  proof (intro exI)
    show "a\<lparr>scene := g'\<rparr> = a\<lparr>scene := g', intersectPointPosition := intersectPointPosition a\<rparr>"
      by simp
  qed
  have both: "\<exists>g q. a\<lparr>scene := g', intersectPointPosition := q'\<rparr> =
                    a\<lparr>scene := g, intersectPointPosition := q\<rparr>" for g' q'
    by blast
  show ?thesis
  proof (cases objs)
    case None
    with same show ?thesis by (simp add: handleToolbarIntersections_def)
  next
    case (Some os)
    show ?thesis
    proof (cases "areAllToolbarsHidden a")
      case (Inl e)
      with Some same show ?thesis by (simp add: handleToolbarIntersections_def)
    next
      case (Inr hidden)
      show ?thesis
      proof (cases hidden)
        case True
        with Some Inr rem show ?thesis by (simp add: handleToolbarIntersections_def)
      next
        case False
        with Some Inr same both show ?thesis
          by (cases "cast os") (simp_all add: handleToolbarIntersections_def)
      qed
    qed
  qed
qed

lemma handleToolbarIntersections_bview:
  "bview (fst (handleToolbarIntersections cast c objs a)) = bview a \<and>
   layerToolbarVisible (fst (handleToolbarIntersections cast c objs a)) = layerToolbarVisible a \<and>
   effects (fst (handleToolbarIntersections cast c objs a)) = effects a"
proof -
  from handleToolbarIntersections_frame [of cast c objs a]
  obtain g q where "fst (handleToolbarIntersections cast c objs a) =
      a\<lparr>scene := g, intersectPointPosition := q\<rparr>" by blast
  then show ?thesis by (simp add: bview_def videos_get_def)
qed

lemma handleToolbarIntersections_no_error:
  assumes "mediaLayers a = [] \<or> layerToolbarVisible a \<noteq> None"
  shows "\<exists>r. snd (handleToolbarIntersections cast c objs a) = Inr r"
  using assms
  by (auto simp: handleToolbarIntersections_def areAllToolbarsHidden_def Let_def
      split: option.splits sum.splits list.splits bool.splits)

lemma controllersIntersections_frame:
  "\<exists>g q. fst (controllersIntersections cast cs a) = a\<lparr>scene := g, intersectPointPosition := q\<rparr>"
proof (induction cs arbitrary: a)
  case Nil
  have "\<exists>g q. a = a\<lparr>scene := g, intersectPointPosition := q\<rparr>"
  proof (intro exI)
    show "a = a\<lparr>scene := scene a, intersectPointPosition := intersectPointPosition a\<rparr>" by simp
  qed
  then show ?case by simp
next
  case (Cons c cs)
  let ?objs = "concat (map (\<lambda>(_, mediaLayer). map Ext (objects mediaLayer)) (mediaLayers a))"
  let ?r = "handleToolbarIntersections (cast c) c (Some ?objs) a"
  from handleToolbarIntersections_frame [of "cast c" c "Some ?objs" a]
  obtain g q where h: "fst ?r = a\<lparr>scene := g, intersectPointPosition := q\<rparr>" by blast
  show ?case
  proof (cases "snd ?r")
    case (Inl e)
    then have "controllersIntersections cast (c # cs) a = (fst ?r, Some e)"
      by (cases ?r) (simp add: Let_def)
    with h show ?thesis by auto
  next
    case (Inr v)
    then have eq: "controllersIntersections cast (c # cs) a = controllersIntersections cast cs (fst ?r)"
      by (cases ?r) (simp add: Let_def)
    from Cons.IH [of "fst ?r"] obtain g' q' where
      "fst (controllersIntersections cast cs (fst ?r)) = (fst ?r)\<lparr>scene := g', intersectPointPosition := q'\<rparr>"
      by blast
    with h eq have "fst (controllersIntersections cast (c # cs) a) =
        a\<lparr>scene := g', intersectPointPosition := q'\<rparr>" by simp
    then show ?thesis by blast
  qed
qed

lemma controllersIntersections_no_error:
  assumes "mediaLayers a = [] \<or> layerToolbarVisible a \<noteq> None"
  shows "snd (controllersIntersections cast cs a) = None"
  using assms
proof (induction cs arbitrary: a)
  case Nil
  show ?case by simp
next
  case (Cons c cs)
  let ?objs = "concat (map (\<lambda>(_, mediaLayer). map Ext (objects mediaLayer)) (mediaLayers a))"
  let ?r = "handleToolbarIntersections (cast c) c (Some ?objs) a"
  from handleToolbarIntersections_no_error [OF Cons.prems, of "cast c" c "Some ?objs"]
  obtain v where v: "snd ?r = Inr v" by blast
  then have eq: "controllersIntersections cast (c # cs) a = controllersIntersections cast cs (fst ?r)"
    by (cases ?r) (simp add: Let_def)
  from handleToolbarIntersections_bview [of "cast c" c "Some ?objs" a] Cons.prems
  have "mediaLayers (fst ?r) = [] \<or> layerToolbarVisible (fst ?r) \<noteq> None"
    by (simp add: bview_def)
  from Cons.IH [OF this] eq show ?case by simp
qed

lemma selectStartLayer_bview:
  "bview (fst (selectStartLayer cast c k l a)) = bview a"
proof (cases "layerToolbarVisible a")
  case None
  then show ?thesis by (simp add: selectStartLayer_def)
next
  case (Some m)
  show ?thesis
  proof (cases "m k = Some True")
    case False
    with Some show ?thesis by (simp add: selectStartLayer_def bview_updates)
  next
    case True
    obtain a1 r1 where r: "handleToolbarIntersections cast c (Some (map Ext (objects l))) a = (a1, r1)"
      by (cases "handleToolbarIntersections cast c (Some (map Ext (objects l))) a")
    with handleToolbarIntersections_bview [of cast c "Some (map Ext (objects l))" a]
    have a1: "bview a1 = bview a" by simp
    have upd: "bview (a1\<lparr>effects := effects a1 @ [LayerUpdate k hs]\<rparr>) = bview a" for hs
      using a1 by (simp add: bview_updates)
    show ?thesis
      using Some True r a1 upd
      by (simp add: selectStartLayer_def bview_updates controller_attach_def Let_def
          split: sum.splits option.splits)
  qed
qed

lemma selectStartLayers_bview:
  "bview (fst (selectStartLayers cast c rest a)) = bview a"
proof (induction rest arbitrary: a)
  case Nil
  show ?case by simp
next
  case (Cons p rest)
  obtain k l where p: "p = (k, l)" by (cases p)
  show ?case
    using selectStartLayer_bview [of cast c k l a] Cons.IH [of "fst (selectStartLayer cast c k l a)"]
    by (auto simp: p split: prod.splits option.splits)
qed

lemma selectEndLayers_bview:
  "bview (selectEndLayers c rest a) = bview a"
proof (induction rest arbitrary: a)
  case Nil
  show ?case by simp
next
  case (Cons p rest)
  obtain k l where p: "p = (k, l)" by (cases p)
  have "bview (if glassLayer l
        then a\<lparr>effects := effects a @ [GlassLayerMove k],
               scene := controller_remove c (map_option Ext (glass l)) (scene a)\<rparr>
        else a) = bview a"
    by (simp add: bview_def videos_get_def)
  with Cons.IH show ?case by (simp add: p)
qed

lemma reachable_ok_cong:
  assumes "bview a' = bview a"
  shows "reachable_ok pc0 ls0 a' = reachable_ok pc0 ls0 a"
proof -
  from assms have eqs: "xrSession a' = xrSession a" "play_counts (videos a') = play_counts (videos a)"
    "videos_get a' ''equirect'' = videos_get a ''equirect''"
    "videos_get a' ''quad'' = videos_get a ''quad''" "mediaLayers a' = mediaLayers a"
    "bootstrap a' = bootstrap a" "bootstrap_trace (effects a') = bootstrap_trace (effects a)"
    by (simp_all add: bview_def)
  show ?thesis
    by (cases "bootstrap a")
       (simp_all add: reachable_ok_def unpublished_def entered_trace_def awaiting_quad_trace_def eqs)
qed

lemma map_of_readyState:
  "map_of (map (\<lambda>(k, v). if k = key then (k, v\<lparr>readyState := n\<rparr>) else (k, v)) vs) k' =
   map_option (\<lambda>v. if k' = key then v\<lparr>readyState := n\<rparr> else v) (map_of vs k')"
  by (induction vs) auto

lemma play_counts_readyState:
  "play_counts (map (\<lambda>(k, v). if k = key then (k, v\<lparr>readyState := n\<rparr>) else (k, v)) vs) =
   play_counts vs"
  by (induction vs) (auto simp: play_counts_def)

lemma videos_get_readyState:
  "videos_get (a\<lparr>videos := map (\<lambda>(k, v). if k = key then (k, v\<lparr>readyState := n\<rparr>) else (k, v))
                              (videos a)\<rparr>) k' = videos_get a k'"
  by (simp add: videos_get_def map_of_readyState split: option.splits)

lemma mstep_passive_bview:
  assumes "\<not> is_settlement e" and "\<forall>p cast. e \<noteq> MFrame p cast"
  shows "bview (mstep a e) = bview a"
proof (cases e)
  case (MSelectStart c cast)
  obtain a1 r1 where r: "handleSelectStart cast c a = (a1, r1)" by (cases "handleSelectStart cast c a")
  with selectStartLayers_bview [of cast c "mediaLayers a" a] have "bview a1 = bview a"
    by (simp add: handleSelectStart_def)
  then show ?thesis
    by (cases r1) (simp_all add: mstep_def MSelectStart r bview_updates)
next
  case (MSelectEnd c)
  then show ?thesis by (simp add: mstep_def handleSelectEnd_def selectEndLayers_bview)
next
  case (MDisconnected c)
  then show ?thesis
    by (simp add: mstep_def onControllerDisconnected_def this_toolbarGroup_def scene_remove_def)
next
  case (MVideoReadyState key n)
  then show ?thesis
    using videos_get_readyState [of key n a]
    by (simp add: mstep_def bview_def play_counts_readyState)
qed (use assms in \<open>simp_all add: is_settlement_def\<close>)

lemma bootstrap_trace_UpdateOnRender:
  "bootstrap_trace (map (\<lambda>(layerKey, _). UpdateOnRender layerKey) ls) = []"
  by (induction ls) auto

lemma renderM_effects:
  "\<exists>g q xs err. bootstrap_trace xs = [] \<and>
     (mediaLayers a = [] \<or> layerToolbarVisible a \<noteq> None \<longrightarrow> err = None) \<and>
     renderM p cast a =
       (case err of
          Some e \<Rightarrow> a\<lparr>scene := g, intersectPointPosition := q, effects := effects a @ xs @ [Thrown e]\<rparr>
        | None \<Rightarrow>
            if guard a
            then a\<lparr>scene := g, intersectPointPosition := q,
                   xrSession := map_option (\<lambda>s. s\<lparr>hasMediaLayer := True\<rparr>) (xrSession a),
                   bootstrap := AwaitingEquirect,
                   effects := effects a @ xs @
                     [BootstrapEntered, CreateMediaLayer (videos_get a ''equirect'') EQUIRECT_LAYER]\<rparr>
            else a\<lparr>scene := g, intersectPointPosition := q, effects := effects a @ xs @ [RenderScene]\<rparr>)"
proof -
  define xs where "xs = (if p then map (\<lambda>(layerKey, _). UpdateOnRender layerKey) (mediaLayers a) else [])"
  let ?a1 = "a\<lparr>effects := effects a @ xs\<rparr>"
  have a1: "(if p then updateLayersOnRender a else a) = ?a1"
    by (simp add: xs_def updateLayersOnRender_def)
  have tr: "bootstrap_trace xs = []" by (simp add: xs_def bootstrap_trace_UpdateOnRender)
  obtain a2 err where r: "controllersIntersections cast controllers ?a1 = (a2, err)"
    by (cases "controllersIntersections cast controllers ?a1")
  from controllersIntersections_frame [of cast controllers ?a1] r
  obtain g q where a2: "a2 = ?a1\<lparr>scene := g, intersectPointPosition := q\<rparr>" by auto
  have noerr: "mediaLayers a = [] \<or> layerToolbarVisible a \<noteq> None \<longrightarrow> err = None"
    using controllersIntersections_no_error [of ?a1 cast controllers] r by simp
  have "renderM p cast a =
       (case err of
          Some e \<Rightarrow> a\<lparr>scene := g, intersectPointPosition := q, effects := effects a @ xs @ [Thrown e]\<rparr>
        | None \<Rightarrow>
            if guard a
            then a\<lparr>scene := g, intersectPointPosition := q,
                   xrSession := map_option (\<lambda>s. s\<lparr>hasMediaLayer := True\<rparr>) (xrSession a),
                   bootstrap := AwaitingEquirect,
                   effects := effects a @ xs @
                     [BootstrapEntered, CreateMediaLayer (videos_get a ''equirect'') EQUIRECT_LAYER]\<rparr>
            else a\<lparr>scene := g, intersectPointPosition := q, effects := effects a @ xs @ [RenderScene]\<rparr>)"
    unfolding renderM_def Let_def a1 r
    by (cases err; cases "xrSession a")
       (simp_all add: a2 guard_def isVideosReady_def videos_get_def)
  with tr noerr show ?thesis by blast
qed

lemma guard_flagged: "guard a \<Longrightarrow> \<not> flagged (xrSession a)"
  by (auto simp: guard_def flagged_def split: option.splits)

lemma renderM_bview_cases:
  "bview (renderM p cast a) = bview a \<or>
   guard a \<and>
   bview (renderM p cast a) =
     (map_option (\<lambda>s. s\<lparr>hasMediaLayer := True\<rparr>) (xrSession a), play_counts (videos a),
      videos_get a ''equirect'', videos_get a ''quad'', mediaLayers a, AwaitingEquirect,
      bootstrap_trace (effects a) @ entered_trace a)"
proof -
  from renderM_effects [of a p cast] obtain g q xs err where
    tr: "bootstrap_trace xs = []" and
    eq: "renderM p cast a =
       (case err of
          Some e \<Rightarrow> a\<lparr>scene := g, intersectPointPosition := q, effects := effects a @ xs @ [Thrown e]\<rparr>
        | None \<Rightarrow>
            if guard a
            then a\<lparr>scene := g, intersectPointPosition := q,
                   xrSession := map_option (\<lambda>s. s\<lparr>hasMediaLayer := True\<rparr>) (xrSession a),
                   bootstrap := AwaitingEquirect,
                   effects := effects a @ xs @
                     [BootstrapEntered, CreateMediaLayer (videos_get a ''equirect'') EQUIRECT_LAYER]\<rparr>
            else a\<lparr>scene := g, intersectPointPosition := q, effects := effects a @ xs @ [RenderScene]\<rparr>)"
    by blast
  show ?thesis
    unfolding eq using tr
    by (cases err) (simp_all add: bview_def videos_get_def entered_trace_def)
qed

lemma renderM_enters:
  assumes "guard a" and "mediaLayers a = [] \<or> layerToolbarVisible a \<noteq> None"
  shows "bview (renderM p cast a) =
     (map_option (\<lambda>s. s\<lparr>hasMediaLayer := True\<rparr>) (xrSession a), play_counts (videos a),
      videos_get a ''equirect'', videos_get a ''quad'', mediaLayers a, AwaitingEquirect,
      bootstrap_trace (effects a) @ entered_trace a)"
proof -
  from renderM_effects [of a p cast] assms(2) obtain g q xs where
    tr: "bootstrap_trace xs = []" and
    eq: "renderM p cast a =
       (if guard a
            then a\<lparr>scene := g, intersectPointPosition := q,
                   xrSession := map_option (\<lambda>s. s\<lparr>hasMediaLayer := True\<rparr>) (xrSession a),
                   bootstrap := AwaitingEquirect,
                   effects := effects a @ xs @
                     [BootstrapEntered, CreateMediaLayer (videos_get a ''equirect'') EQUIRECT_LAYER]\<rparr>
            else a\<lparr>scene := g, intersectPointPosition := q, effects := effects a @ xs @ [RenderScene]\<rparr>)"
    by auto
  show ?thesis
    unfolding eq using tr assms(1)
    by (simp add: bview_def videos_get_def entered_trace_def)
qed

lemma renderM_no_guard:
  assumes "\<not> guard a"
  shows "bview (renderM p cast a) = bview a"
  using renderM_bview_cases [of p cast a] assms by blast

lemma mstep_flagged_bview:
  assumes "flagged (xrSession a)" and "\<not> is_settlement e"
  shows "bview (mstep a e) = bview a"
proof (cases "\<exists>p cast. e = MFrame p cast")
  case True
  then obtain p cast where e: "e = MFrame p cast" by blast
  from assms(1) guard_flagged have "\<not> guard a" by blast
  then show ?thesis by (simp add: e mstep_def renderM_no_guard)
next
  case False
  with assms(2) show ?thesis by (simp add: mstep_passive_bview)
qed

lemma mrun_flagged_bview:
  assumes "flagged (xrSession a)" and "list_all (\<lambda>e. \<not> is_settlement e) es"
  shows "bview (mrun a es) = bview a"
  using assms(2)
proof (induction es rule: rev_induct)
  case Nil
  show ?case by (simp add: mrun_def)
next
  case (snoc e es)
  then have IH: "bview (mrun a es) = bview a" and e: "\<not> is_settlement e" by simp_all
  from IH assms(1) have "flagged (xrSession (mrun a es))" by (simp add: bview_def)
  from mstep_flagged_bview [OF this e] IH show ?case by (simp add: mrun_def)
qed

lemma videos_get_play:
  "videos_get (a\<lparr>videos := map (\<lambda>(k, v). (k, play v)) (videos a)\<rparr>) k' = videos_get a k'"
proof -
  have "map_of (map (\<lambda>(k, v). (k, play v)) vs) k' = map_option play (map_of vs k')" for vs
    by (induction vs) auto
  then show ?thesis by (simp add: videos_get_def play_def split: option.splits)
qed

lemma play_counts_play:
  "play_counts (map (\<lambda>(k, v). (k, play v)) vs) = map (\<lambda>(k, n). (k, Suc n)) (play_counts vs)"
  by (induction vs) (auto simp: play_counts_def play_def)

lemma bootstrap_trace_Play:
  "bootstrap_trace (map (\<lambda>(k, _). Play k) vs) = map (\<lambda>(k, n). Play k) (play_counts vs)"
  by (induction vs) (auto simp: play_counts_def)

lemma factorySettled_equirect:
  assumes "bootstrap a = AwaitingEquirect"
  shows "bview (factorySettled (Inr eq) a) =
     (xrSession a, play_counts (videos a), videos_get a ''equirect'', videos_get a ''quad'',
      AList.update ''equirect'' eq (mediaLayers a), AwaitingQuad eq,
      bootstrap_trace (effects a) @ [CreateMediaLayer (videos_get a ''quad'') QUAD_LAYER])"
  using assms by (simp add: factorySettled_def bview_def videos_get_def)

lemma factorySettled_failed:
  assumes "bootstrap a = AwaitingEquirect \<or> bootstrap a = AwaitingQuad l"
  shows "factorySettled (Inl err) a = a\<lparr>bootstrap := Failed err, effects := effects a @ [Thrown err]\<rparr>"
  using assms by (auto simp: factorySettled_def)

lemma factorySettled_idle:
  assumes "bootstrap a = NotStarted \<or> bootstrap a = Finished \<or> bootstrap a = Failed err"
  shows "factorySettled r a = a"
  using assms by (auto simp: factorySettled_def)

lemma hideToolbars_frame: "\<exists>m. hideToolbars a = a\<lparr>layerToolbarVisible := m\<rparr>"
  unfolding hideToolbars_def Let_def by (rule exI) (rule refl)

lemma factorySettled_quad:
  assumes "bootstrap a = AwaitingQuad eq" and "xrSession a = Some s" and "layers s = Some ls"
  shows "bview (factorySettled (Inr qd) a) =
     (Some (s\<lparr>layers := Some [layer eq, layer qd, first_layer ls]\<rparr>),
      map (\<lambda>(k, n). (k, Suc n)) (play_counts (videos a)),
      videos_get a ''equirect'', videos_get a ''quad'',
      AList.update ''quad'' qd (mediaLayers a), Finished,
      bootstrap_trace (effects a) @ UpdateRenderState [layer eq, layer qd, first_layer ls] #
        map (\<lambda>(k, n). Play k) (play_counts (videos a)))"
proof -
  let ?a0 = "a\<lparr>mediaLayers := AList.update ''quad'' qd (mediaLayers a)\<rparr>"
  from hideToolbars_frame [of ?a0] obtain m where h: "hideToolbars ?a0 = ?a0\<lparr>layerToolbarVisible := m\<rparr>"
    by blast
  have "factorySettled (Inr qd) a = finishBootstrap eq qd a" using assms(1) by (simp add: factorySettled_def)
  also have "\<dots> = ?a0\<lparr>layerToolbarVisible := m,
      xrSession := Some (s\<lparr>layers := Some [layer eq, layer qd, first_layer ls]\<rparr>),
      videos := map (\<lambda>(k, v). (k, play v)) (videos a),
      bootstrap := Finished,
      effects := effects a @ [UpdateRenderState [layer eq, layer qd, first_layer ls]] @
                 map (\<lambda>(k, _). Play k) (videos a) @ [RenderScene]\<rparr>"
    using assms(2,3) by (simp add: finishBootstrap_def h Let_def)
  finally show ?thesis
    using videos_get_play [of a]
    by (simp add: bview_def play_counts_play bootstrap_trace_Play videos_get_def)
qed

lemma factorySettled_quad_no_layers:
  assumes "bootstrap a = AwaitingQuad eq" and "xrSession a = Some s" and "layers s = None"
  shows "\<exists>e. bview (factorySettled (Inr qd) a) =
     (xrSession a, play_counts (videos a), videos_get a ''equirect'', videos_get a ''quad'',
      AList.update ''quad'' qd (mediaLayers a), Failed e, bootstrap_trace (effects a))"
proof -
  let ?a0 = "a\<lparr>mediaLayers := AList.update ''quad'' qd (mediaLayers a)\<rparr>"
  from hideToolbars_frame [of ?a0] obtain m where h: "hideToolbars ?a0 = ?a0\<lparr>layerToolbarVisible := m\<rparr>"
    by blast
  have "factorySettled (Inr qd) a = finishBootstrap eq qd a" using assms(1) by (simp add: factorySettled_def)
  then show ?thesis
    using assms(2,3) by (simp add: finishBootstrap_def h Let_def bview_def videos_get_def)
qed

lemma bviewD:
  assumes "bview X = (A, B, C, D, E, F, G)"
  shows "xrSession X = A" "play_counts (videos X) = B" "videos_get X ''equirect'' = C"
    "videos_get X ''quad'' = D" "mediaLayers X = E" "bootstrap X = F"
    "bootstrap_trace (effects X) = G"
  using assms by (simp_all add: bview_def)

lemma reachable_ok_not_flagged:
  assumes "reachable_ok pc0 ls0 a" and "\<not> flagged (xrSession a)"
  shows "bootstrap a = NotStarted"
  using assms by (cases "bootstrap a") (simp_all add: reachable_ok_def)

lemma mstep_reachable_ok:
  assumes "reachable_ok pc0 ls0 a"
  shows "reachable_ok pc0 ls0 (mstep a e)"
proof (cases e)
  case (MFrame p cast)
  from renderM_bview_cases [of p cast a] show ?thesis
  proof
    assume "bview (renderM p cast a) = bview a"
    from reachable_ok_cong [OF this] assms show ?thesis by (simp add: MFrame mstep_def)
  next
    assume g: "guard a \<and>
      bview (renderM p cast a) =
        (map_option (\<lambda>s. s\<lparr>hasMediaLayer := True\<rparr>) (xrSession a), play_counts (videos a),
         videos_get a ''equirect'', videos_get a ''quad'', mediaLayers a, AwaitingEquirect,
         bootstrap_trace (effects a) @ entered_trace a)"
    then have ns: "bootstrap a = NotStarted"
      using reachable_ok_not_flagged [OF assms] guard_flagged by blast
    from g obtain s where s: "xrSession a = Some s"
      by (auto simp: guard_def split: option.splits)
    note v = bviewD [OF conjunct2 [OF g]]
    from assms ns have "bootstrap_trace (effects a) = []" "mediaLayers a = []" "unpublished pc0 ls0 a"
      by (simp_all add: reachable_ok_def)
    then show ?thesis
      using v s
      by (simp add: MFrame mstep_def reachable_ok_def unpublished_def entered_trace_def flagged_def)
  qed
next
  case (FactorySettled r)
  have step: "mstep a e = factorySettled r a" by (simp add: FactorySettled mstep_def)
  show ?thesis
  proof (cases "bootstrap a")
    case NotStarted
    then show ?thesis using assms factorySettled_idle [of a undefined r] by (simp add: step)
  next
    case Finished
    then show ?thesis using assms factorySettled_idle [of a undefined r] by (simp add: step)
  next
    case (Failed err)
    then show ?thesis using assms factorySettled_idle [of a err r] by (simp add: step)
  next
    case AwaitingEquirect
    show ?thesis
    proof (cases r)
      case (Inl err)
      with AwaitingEquirect assms show ?thesis
        by (simp add: step factorySettled_def reachable_ok_def unpublished_def entered_trace_def
            awaiting_quad_trace_def videos_get_def)
    next
      case (Inr eq)
      with AwaitingEquirect assms show ?thesis
        by (simp add: step factorySettled_def reachable_ok_def unpublished_def entered_trace_def
            awaiting_quad_trace_def videos_get_def)
    qed
  next
    case (AwaitingQuad eq)
    with assms have inv: "flagged (xrSession a)"
      "bootstrap_trace (effects a) = awaiting_quad_trace a"
      "mediaLayers a = [(''equirect'', eq)]" "unpublished pc0 ls0 a"
      by (simp_all add: reachable_ok_def)
    from inv(1) obtain s where s: "xrSession a = Some s" "hasMediaLayer s"
      by (auto simp: flagged_def split: option.splits)
    from inv(4) s have ls0: "layers s = ls0" and pc0: "play_counts (videos a) = pc0"
      by (simp_all add: unpublished_def)
    show ?thesis
    proof (cases r)
      case (Inl err)
      with AwaitingQuad assms show ?thesis
        by (simp add: step factorySettled_def reachable_ok_def unpublished_def entered_trace_def
            awaiting_quad_trace_def videos_get_def)
    next
      case (Inr qd)
      show ?thesis
      proof (cases ls0)
        case None
        from factorySettled_quad_no_layers [OF AwaitingQuad s(1), of qd] ls0 None
        obtain err where "bview (factorySettled (Inr qd) a) =
          (xrSession a, play_counts (videos a), videos_get a ''equirect'', videos_get a ''quad'',
           AList.update ''quad'' qd (mediaLayers a), Failed err, bootstrap_trace (effects a))"
          by auto
        note v = bviewD [OF this]
        show ?thesis
          using v inv s ls0 pc0
          by (simp add: step Inr reachable_ok_def unpublished_def entered_trace_def awaiting_quad_trace_def)
      next
        case (Some ls)
        with ls0 have "layers s = Some ls" by simp
        note v = bviewD [OF factorySettled_quad [OF AwaitingQuad s(1) this, of qd]]
        show ?thesis
          using v inv s ls0 pc0 Some
          by (simp add: step Inr reachable_ok_def entered_trace_def awaiting_quad_trace_def flagged_def)
      qed
    qed
  qed
next
  case (MSelectStart c cast)
  then have "bview (mstep a e) = bview a" by (simp add: mstep_passive_bview is_settlement_def)
  from reachable_ok_cong [OF this] assms show ?thesis by simp
next
  case (MSelectEnd c)
  then have "bview (mstep a e) = bview a" by (simp add: mstep_passive_bview is_settlement_def)
  from reachable_ok_cong [OF this] assms show ?thesis by simp
next
  case (MDisconnected c)
  then have "bview (mstep a e) = bview a" by (simp add: mstep_passive_bview is_settlement_def)
  from reachable_ok_cong [OF this] assms show ?thesis by simp
next
  case (MVideoReadyState k n)
  then have "bview (mstep a e) = bview a" by (simp add: mstep_passive_bview is_settlement_def)
  from reachable_ok_cong [OF this] assms show ?thesis by simp
qed

lemma mrun_reachable_ok:
  assumes "reachable_ok pc0 ls0 a"
  shows "reachable_ok pc0 ls0 (mrun a es)"
proof (induction es rule: rev_induct)
  case Nil
  with assms show ?case by (simp add: mrun_def)
next
  case (snoc e es)
  from mstep_reachable_ok [OF snoc] show ?case by (simp add: mrun_def)
qed

lemma multi_initial_reachable_ok:
  "reachable_ok [(''equirect'', play_calls v1), (''quad'', play_calls v2)]
     (case s of None \<Rightarrow> None | Some x \<Rightarrow> layers x) (multi_initial v1 v2 s)"
  by (simp add: reachable_ok_def multi_initial_def unpublished_def play_counts_def)

lemma count_bootstrap_trace:
  "count_list (bootstrap_trace xs) BootstrapEntered = count_list xs BootstrapEntered"
  by (induction xs) (auto simp: bootstrap_trace_def bootstrap_effect_def)

lemma count_Play: "count_list (map (\<lambda>(k, n). Play k) pc) BootstrapEntered = 0"
  by (induction pc) auto

lemma reachable_count:
  assumes "reachable_ok pc0 ls0 a"
  shows "count_list (effects a) BootstrapEntered = (if bootstrap a = NotStarted then 0 else 1)"
proof -
  have "count_list (bootstrap_trace (effects a)) BootstrapEntered =
        (if bootstrap a = NotStarted then 0 else 1)"
    using assms
    by (cases "bootstrap a")
       (auto simp: reachable_ok_def entered_trace_def awaiting_quad_trace_def count_Play)
  then show ?thesis by (simp add: count_bootstrap_trace)
qed

lemma reachable_flagged:
  assumes "reachable_ok pc0 ls0 a" and "bootstrap a \<noteq> NotStarted"
  shows "flagged (xrSession a)"
  using assms by (cases "bootstrap a") (simp_all add: reachable_ok_def)

lemma mstep_keeps_settled:
  assumes "reachable_ok pc0 ls0 a" and "bootstrap a = Finished \<or> bootstrap a = Failed err"
  shows "bview (mstep a e) = bview a"
proof (cases "is_settlement e")
  case True
  then obtain r where "e = FactorySettled r" by (cases e) (simp_all add: is_settlement_def)
  with assms(2) factorySettled_idle [of a err r] show ?thesis by (simp add: mstep_def)
next
  case False
  from assms have "flagged (xrSession a)" by (auto intro: reachable_flagged)
  from mstep_flagged_bview [OF this False] show ?thesis .
qed

lemma mrun_keeps_settled:
  assumes "reachable_ok pc0 ls0 a" and "bootstrap a = Finished \<or> bootstrap a = Failed err"
  shows "bview (mrun a es) = bview a"
proof (induction es rule: rev_induct)
  case Nil
  show ?case by (simp add: mrun_def)
next
  case (snoc e es)
  from snoc assms(2) have b: "bootstrap (mrun a es) = Finished \<or> bootstrap (mrun a es) = Failed err"
    by (simp add: bview_def)
  from mstep_keeps_settled [OF mrun_reachable_ok [OF assms(1)] b, of e] snoc
  show ?case by (simp add: mrun_def)
qed

lemma mstep_started:
  assumes "reachable_ok pc0 ls0 a" and "bootstrap a \<noteq> NotStarted"
  shows "bootstrap (mstep a e) \<noteq> NotStarted"
proof (cases "is_settlement e")
  case True
  then obtain r where "e = FactorySettled r" by (cases e) (simp_all add: is_settlement_def)
  with assms(2) show ?thesis
    by (cases "bootstrap a"; cases r)
       (auto simp: mstep_def factorySettled_def finishBootstrap_def hideToolbars_def Let_def
          split: option.splits)
next
  case False
  from assms have "flagged (xrSession a)" by (rule reachable_flagged)
  from mstep_flagged_bview [OF this False] assms(2) show ?thesis by (simp add: bview_def)
qed

lemma mrun_started:
  assumes "reachable_ok pc0 ls0 a" and "bootstrap a \<noteq> NotStarted"
  shows "bootstrap (mrun a es) \<noteq> NotStarted"
proof (induction es rule: rev_induct)
  case Nil
  with assms(2) show ?case by (simp add: mrun_def)
next
  case (snoc e es)
  from mstep_started [OF mrun_reachable_ok [OF assms(1)] snoc, of e]
  show ?case by (simp add: mrun_def)
qed

lemma mrun_Cons: "mrun a (e # es) = mrun (mstep a e) es"
  by (simp add: mrun_def)

lemma mrun_append: "mrun a (es @ es') = mrun (mrun a es) es'"
  by (simp add: mrun_def)

lemma single_step_count:
  "(flagged (xrSession a) \<longrightarrow>
      flagged (xrSession (step b a e)) \<and>
      count_list (effects (step b a e)) BootstrapEntered = count_list (effects a) BootstrapEntered) \<and>
   (\<not> flagged (xrSession a) \<longrightarrow>
      count_list (effects (step b a e)) BootstrapEntered = count_list (effects a) BootstrapEntered \<or>
      flagged (xrSession (step b a e)) \<and>
      count_list (effects (step b a e)) BootstrapEntered = Suc (count_list (effects a) BootstrapEntered))"
  by (cases e)
     (auto simp: step_def render_def updateProgressBar_def onReferenceSpace_def Let_def flagged_def
        handleToolbarIntersection_def setVideoCurrentTime_def onDisconnected_def
        split: option.splits sum.splits)

lemma single_run_count:
  assumes "count_list (effects a) BootstrapEntered = 0 \<or>
           flagged (xrSession a) \<and> count_list (effects a) BootstrapEntered = 1"
  shows "count_list (effects (run b a es)) BootstrapEntered = 0 \<or>
         flagged (xrSession (run b a es)) \<and> count_list (effects (run b a es)) BootstrapEntered = 1"
proof (induction es rule: rev_induct)
  case Nil
  with assms show ?case by (simp add: run_def)
next
  case (snoc e es)
  have r: "run b a (es @ [e]) = step b (run b a es) e" by (simp add: run_def)
  from snoc single_step_count [of "run b a es" b e] show ?case
    unfolding r by (cases "flagged (xrSession (run b a es))") auto
qed

lemma single_run_flagged:
  assumes "flagged (xrSession a)"
  shows "flagged (xrSession (run b a es)) \<and>
         count_list (effects (run b a es)) BootstrapEntered = count_list (effects a) BootstrapEntered"
proof (induction es rule: rev_induct)
  case Nil
  with assms show ?case by (simp add: run_def)
next
  case (snoc e es)
  have r: "run b a (es @ [e]) = step b (run b a es) e" by (simp add: run_def)
  from snoc single_step_count [of "run b a es" b e] show ?case
    unfolding r by auto
qed

lemma publishes_trace:
  "list_all (\<lambda>x. \<not> publishes x) (bootstrap_trace xs) = list_all (\<lambda>x. \<not> publishes x) xs"
  by (induction xs) (auto simp: bootstrap_trace_def bootstrap_effect_def publishes_def split: effect.splits)

lemma renderM_not_ready:
  assumes "\<not> isVideosReady a" and "mediaLayers a = [] \<or> layerToolbarVisible a \<noteq> None"
  shows "effects (renderM p cast a) =
           effects (if p then updateLayersOnRender a else a) @ [RenderScene]"
proof -
  let ?a1 = "if p then updateLayersOnRender a else a"
  have a1: "mediaLayers ?a1 = mediaLayers a" "layerToolbarVisible ?a1 = layerToolbarVisible a"
    "xrSession ?a1 = xrSession a" "videos ?a1 = videos a"
    by (simp_all add: updateLayersOnRender_def)
  obtain a2 err where r: "controllersIntersections cast controllers ?a1 = (a2, err)"
    by (cases "controllersIntersections cast controllers ?a1")
  from controllersIntersections_frame [of cast controllers ?a1] r
  obtain g q where a2: "a2 = ?a1\<lparr>scene := g, intersectPointPosition := q\<rparr>" by auto
  from controllersIntersections_no_error [of ?a1 cast controllers] assms(2) r a1
  have err: "err = None" by simp
  have "renderM p cast a = a2\<lparr>effects := effects a2 @ [RenderScene]\<rparr>"
    unfolding renderM_def Let_def r err
    using assms(1) a1 by (cases "xrSession a") (simp_all add: a2 isVideosReady_def)
  then show ?thesis by (simp add: a2)
qed

lemma not_ready_no_guard: "\<not> isVideosReady a \<Longrightarrow> \<not> guard a"
  by (simp add: guard_def split: option.splits)

text \<open>
  C4.  In every run of the multi-layer application from the state its constructor leaves,
  whatever the events, the guarded block of \<open>render\<close> is entered at most once.  When a run
  has reached a state in which the guard holds (session with a layer list and no media
  layer yet, every video ready), the block has not been entered before; the next frame
  enters it, sets the flag on the session and is suspended at the first factory call;
  and however many frames and other events follow, the block has been entered exactly
  once.  The same holds for the single-layer application, whose guard asks for a non-zero
  ready state.
\<close>

theorem bootstrap_entered_at_most_once:
  assumes "guard (mrun (multi_initial v1 v2 s) es0)"
    and "single_guard (run b (single_initial tg v s') evs0)"
  shows "count_list (effects (mrun (multi_initial w1 w2 t) es)) BootstrapEntered \<le> 1 \<and>
         count_list (effects (mrun (multi_initial v1 v2 s) es0)) BootstrapEntered = 0 \<and>
         flagged (xrSession (mrun (multi_initial v1 v2 s) (es0 @ [MFrame p cast]))) \<and>
         bootstrap (mrun (multi_initial v1 v2 s) (es0 @ [MFrame p cast])) = AwaitingEquirect \<and>
         count_list (effects (mrun (multi_initial v1 v2 s) (es0 @ MFrame p cast # es)))
           BootstrapEntered = 1 \<and>
         count_list (effects (run b (single_initial tg w t') evs)) BootstrapEntered \<le> 1 \<and>
         count_list (effects (run b (single_initial tg v s') evs0)) BootstrapEntered = 0 \<and>
         flagged (xrSession (run b (single_initial tg v s') (evs0 @ [Frame q]))) \<and>
         count_list (effects (run b (single_initial tg v s') (evs0 @ Frame q # evs)))
           BootstrapEntered = 1"
proof -
  \<comment> \<open>multi-layer application, any run\<close>
  note ok = mrun_reachable_ok [OF multi_initial_reachable_ok]
  have m1: "count_list (effects (mrun (multi_initial w1 w2 t) es)) BootstrapEntered \<le> 1"
    using reachable_count [OF ok [of w1 w2 t es]] by simp
  \<comment> \<open>multi-layer application, a frame that finds the guard true\<close>
  let ?a = "mrun (multi_initial v1 v2 s) es0"
  let ?a1 = "mstep ?a (MFrame p cast)"
  from assms(1) have nf: "\<not> flagged (xrSession ?a)" by (rule guard_flagged)
  from reachable_ok_not_flagged [OF ok nf] have ns: "bootstrap ?a = NotStarted" .
  with ok [of v1 v2 s es0] have none: "mediaLayers ?a = []" by (simp add: reachable_ok_def)
  from reachable_count [OF ok [of v1 v2 s es0]] ns
  have m0: "count_list (effects ?a) BootstrapEntered = 0" by simp
  from none have "mediaLayers ?a = [] \<or> layerToolbarVisible ?a \<noteq> None" by simp
  note v = bviewD [OF renderM_enters [OF assms(1) this, of p cast]]
  from assms(1) obtain x where x: "xrSession ?a = Some x"
    by (auto simp: guard_def split: option.splits)
  have m3: "flagged (xrSession ?a1)" "bootstrap ?a1 = AwaitingEquirect"
    using v(1,6) x by (simp_all add: flagged_def mstep_def)
  have ok1: "reachable_ok [(''equirect'', play_calls v1), (''quad'', play_calls v2)]
      (case s of None \<Rightarrow> None | Some y \<Rightarrow> layers y) ?a1"
    by (rule mstep_reachable_ok [OF ok])
  have started: "bootstrap ?a1 \<noteq> NotStarted" using m3(2) by simp
  have "count_list (effects (mrun ?a1 es)) BootstrapEntered = 1"
    using reachable_count [OF mrun_reachable_ok [OF ok1, of es]] mrun_started [OF ok1 started, of es]
    by simp
  then have m2: "count_list (effects (mrun (multi_initial v1 v2 s) (es0 @ MFrame p cast # es)))
           BootstrapEntered = 1"
    by (simp add: mrun_Cons mrun_append)
  have r1: "mrun (multi_initial v1 v2 s) (es0 @ [MFrame p cast]) = ?a1" by (simp add: mrun_def)
  \<comment> \<open>single-layer application\<close>
  have init0: "count_list (effects (single_initial tg u r)) BootstrapEntered = 0" for u r
    by (simp add: single_initial_def)
  from single_run_count [of "single_initial tg w t'" b evs] init0
  have s1: "count_list (effects (run b (single_initial tg w t') evs)) BootstrapEntered \<le> 1"
    by auto
  let ?s = "run b (single_initial tg v s') evs0"
  let ?s1 = "step b ?s (Frame q)"
  from assms(2) have snf: "\<not> flagged (xrSession ?s)"
    by (auto simp: single_guard_def flagged_def split: option.splits)
  from single_run_count [of "single_initial tg v s'" b evs0] init0 snf
  have s0: "count_list (effects ?s) BootstrapEntered = 0" by auto
  have first: "flagged (xrSession ?s1)" "count_list (effects ?s1) BootstrapEntered = 1"
    using assms(2) s0
    by (auto simp: step_def render_def updateProgressBar_def Let_def flagged_def single_guard_def
        split: option.splits)
  have r: "run b (single_initial tg v s') (evs0 @ Frame q # evs) = run b ?s1 evs"
    "run b (single_initial tg v s') (evs0 @ [Frame q]) = ?s1"
    by (simp_all add: run_def)
  from single_run_flagged [OF first(1), of b evs] first(2)
  have s2: "count_list (effects (run b (single_initial tg v s') (evs0 @ Frame q # evs)))
           BootstrapEntered = 1"
    by (simp add: r)
  from m1 m0 m2 m3 s1 s0 s2 first(1) show ?thesis unfolding r1 r(2) by blast
qed

theorem bootstrap_entered_at_most_once_witness:
  "guard (mrun (multi_initial (example_video 0 4) (example_video 1 2) (Some example_session))
      [MFrame True no_hits_any, MVideoReadyState ''quad'' 4]) \<and>
   single_guard (run example_binding (single_initial (Ext 0) (example_video 0 0) (Some example_session))
      [Frame True, VideoReadyState 1]) \<and>
   count_list (effects (mrun (multi_initial (example_video 0 4) (example_video 1 2) (Some example_session))
     ([MFrame True no_hits_any, MVideoReadyState ''quad'' 4] @ MFrame True no_hits_any #
        [MFrame True no_hits_any, FactorySettled (Inr example_equirect),
         MFrame True no_hits_any, FactorySettled (Inr example_quad), MFrame True no_hits_any])))
     BootstrapEntered = 1 \<and>
   count_list (effects (run example_binding (single_initial (Ext 0) (example_video 0 0) (Some example_session))
     ([Frame True, VideoReadyState 1] @ Frame True #
        [Frame True, ReferenceSpaceSettled (Inr (JObj 5)), Frame False])))
     BootstrapEntered = 1"
proof -
  have h1: "guard (mrun (multi_initial (example_video 0 4) (example_video 1 2) (Some example_session))
      [MFrame True no_hits_any, MVideoReadyState ''quad'' 4])"
    by (simp add: guard_def example_defs multi_defs no_hits_any_def)
  have h2: "single_guard (run example_binding
      (single_initial (Ext 0) (example_video 0 0) (Some example_session))
      [Frame True, VideoReadyState 1])"
    by (simp add: single_guard_def run_def step_def render_def updateProgressBar_def Let_def
        single_initial_def example_video_def example_session_def)
  from bootstrap_entered_at_most_once [OF h1 h2, where p = True and cast = no_hits_any
      and es = "[MFrame True no_hits_any, FactorySettled (Inr example_equirect),
        MFrame True no_hits_any, FactorySettled (Inr example_quad), MFrame True no_hits_any]"
      and q = True
      and evs = "[Frame True, ReferenceSpaceSettled (Inr (JObj 5)), Frame False]"]
  show ?thesis using h1 h2 by simp
qed

text \<open>
  C8.  Take any run of the multi-layer application that has reached a state where a
  \<^verbatim>\<open>createMediaLayer\<close> call is pending (the first or the second).  If that call fails with
  \<open>err\<close>, the exception leaves \<open>render\<close> (the block ends as \<open>Failed err\<close>, with \<open>Thrown err\<close> as
  the effect), and whatever events follow, no \<^verbatim>\<open>updateRenderState\<close> and no \<^verbatim>\<open>play()\<close> is
  ever among the effects, the play counts of the videos are those of the start, and the
  layer list of the session is the original one.
\<close>

theorem factory_failure_publishes_nothing:
  assumes "awaiting (bootstrap (mrun (multi_initial v1 v2 s) es))"
  shows "bootstrap (mrun (mstep (mrun (multi_initial v1 v2 s) es) (FactorySettled (Inl err))) es') =
           Failed err \<and>
         effects (mstep (mrun (multi_initial v1 v2 s) es) (FactorySettled (Inl err))) =
           effects (mrun (multi_initial v1 v2 s) es) @ [Thrown err] \<and>
         list_all (\<lambda>x. \<not> publishes x)
           (effects (mrun (mstep (mrun (multi_initial v1 v2 s) es) (FactorySettled (Inl err))) es')) \<and>
         play_counts (videos (mrun (mstep (mrun (multi_initial v1 v2 s) es) (FactorySettled (Inl err))) es')) =
           [(''equirect'', play_calls v1), (''quad'', play_calls v2)] \<and>
         session_layers (xrSession (mrun (mstep (mrun (multi_initial v1 v2 s) es) (FactorySettled (Inl err))) es')) =
           session_layers s"
proof -
  let ?a = "mrun (multi_initial v1 v2 s) es"
  let ?a1 = "mstep ?a (FactorySettled (Inl err))"
  let ?f = "mrun ?a1 es'"
  let ?pc0 = "[(''equirect'', play_calls v1), (''quad'', play_calls v2)]"
  let ?ls0 = "case s of None \<Rightarrow> None | Some x \<Rightarrow> layers x"
  have ok: "reachable_ok ?pc0 ?ls0 ?a" by (rule mrun_reachable_ok [OF multi_initial_reachable_ok])
  from assms obtain l where pend: "bootstrap ?a = AwaitingEquirect \<or> bootstrap ?a = AwaitingQuad l"
    by (cases "bootstrap ?a") (auto simp: awaiting_def)
  have a1: "?a1 = ?a\<lparr>bootstrap := Failed err, effects := effects ?a @ [Thrown err]\<rparr>"
    using factorySettled_failed [OF pend] by (simp add: mstep_def)
  have ok1: "reachable_ok ?pc0 ?ls0 ?a1" by (rule mstep_reachable_ok [OF ok])
  have b1: "bootstrap ?a1 = Finished \<or> bootstrap ?a1 = Failed err" by (simp add: a1)
  have okf: "reachable_ok ?pc0 ?ls0 ?f" by (rule mrun_reachable_ok [OF ok1])
  from mrun_keeps_settled [OF ok1 b1, of es'] have bf: "bootstrap ?f = Failed err"
    by (simp add: bview_def a1)
  from okf bf have inv: "flagged (xrSession ?f)"
    "bootstrap_trace (effects ?f) = entered_trace ?f \<or>
     bootstrap_trace (effects ?f) = awaiting_quad_trace ?f"
    "unpublished ?pc0 ?ls0 ?f"
    by (simp_all add: reachable_ok_def)
  from inv(2) have "list_all (\<lambda>x. \<not> publishes x) (bootstrap_trace (effects ?f))"
    by (auto simp: entered_trace_def awaiting_quad_trace_def publishes_def)
  then have c3: "list_all (\<lambda>x. \<not> publishes x) (effects ?f)" by (simp add: publishes_trace)
  from inv(3) have c4: "play_counts (videos ?f) = ?pc0" by (simp add: unpublished_def)
  from inv(1) obtain y where y: "xrSession ?f = Some y" by (auto simp: flagged_def split: option.splits)
  with inv(3) have ly: "layers y = ?ls0" by (simp add: unpublished_def)
  have "s \<noteq> None"
  proof
    assume "s = None"
    then have "\<not> guard (multi_initial v1 v2 s)" by (simp add: guard_def multi_initial_def)
    have "bview (mrun (multi_initial v1 v2 s) es) = bview (multi_initial v1 v2 s)" for es
    proof (induction es rule: rev_induct)
      case Nil show ?case by (simp add: mrun_def)
    next
      case (snoc e es)
      let ?b = "mrun (multi_initial v1 v2 s) es"
      from snoc \<open>s = None\<close> have x: "xrSession ?b = None" "bootstrap ?b = NotStarted"
        by (simp_all add: bview_def multi_initial_def)
      have "bview (mstep ?b e) = bview ?b"
      proof (cases e)
        case (MFrame p cast)
        from x(1) have "\<not> guard ?b" by (simp add: guard_def)
        then show ?thesis by (simp add: MFrame mstep_def renderM_no_guard)
      next
        case (FactorySettled r)
        with x(2) factorySettled_idle [of ?b undefined r] show ?thesis by (simp add: mstep_def)
      qed (simp_all add: mstep_passive_bview is_settlement_def)
      with snoc show ?case by (simp add: mrun_def)
    qed
    then have "bootstrap ?a = NotStarted" by (simp add: bview_def multi_initial_def)
    with pend show False by auto
  qed
  with ly y have c5: "session_layers (xrSession ?f) = session_layers s"
    by (auto simp: session_layers_def)
  from bf a1 c3 c4 c5 show ?thesis by simp
qed

lemma example_awaiting_quad:
  "bootstrap (mrun example_multi [MFrame True no_hits_any, FactorySettled (Inr example_equirect)]) =
     AwaitingQuad example_equirect"
  by (simp add: example_defs multi_defs no_hits_any_def)

theorem factory_failure_publishes_nothing_witness:
  "awaiting (bootstrap (mrun example_multi
      [MFrame True no_hits_any, FactorySettled (Inr example_equirect)])) \<and>
   bootstrap (mrun (mstep (mrun example_multi
      [MFrame True no_hits_any, FactorySettled (Inr example_equirect)])
      (FactorySettled (Inl (Rejection (JStr ''no reference space'')))))
      [MFrame True no_hits_any, FactorySettled (Inr example_quad)]) =
     Failed (Rejection (JStr ''no reference space'')) \<and>
   list_all (\<lambda>x. \<not> publishes x)
     (effects (mrun (mstep (mrun example_multi
        [MFrame True no_hits_any, FactorySettled (Inr example_equirect)])
        (FactorySettled (Inl (Rejection (JStr ''no reference space'')))))
        [MFrame True no_hits_any, FactorySettled (Inr example_quad)])) \<and>
   session_layers (xrSession (mrun (mstep (mrun example_multi
        [MFrame True no_hits_any, FactorySettled (Inr example_equirect)])
        (FactorySettled (Inl (Rejection (JStr ''no reference space'')))))
        [MFrame True no_hits_any, FactorySettled (Inr example_quad)])) = Some [JObj 100]"
proof -
  have h: "awaiting (bootstrap (mrun example_multi
      [MFrame True no_hits_any, FactorySettled (Inr example_equirect)]))"
    by (simp add: example_awaiting_quad awaiting_def)
  from factory_failure_publishes_nothing [OF h [unfolded example_multi_def],
      of "Rejection (JStr ''no reference space'')"
         "[MFrame True no_hits_any, FactorySettled (Inr example_quad)]"]
  show ?thesis using h
    by (simp add: example_multi_def session_layers_def example_session_def)
qed

lemma mrun_Nil: "mrun a [] = a"
  by (simp add: mrun_def)

text \<open>
  C3.  Two layers, both videos ready: take a run from the state the constructor leaves to
  a state in which the guard holds (both videos at ready state 4, a session without media
  layer) and the layer list of the session starts with \<open>base\<close>.  After the frame that
  detects this, any events other than settlements, the first factory promise resolving
  with \<open>eq\<close>, again any events other than settlements, the second promise resolving with
  \<open>qd\<close>, and then any events at all (later frames among them), the layer list of the
  session is \<open>[layer eq, layer qd, base]\<close>, three entries with the original base layer
  last; the effects of the bootstrap are exactly the entry, the two factory calls, one
  \<^verbatim>\<open>updateRenderState\<close> with that list and then one \<^verbatim>\<open>play()\<close> for each video; and each
  video has been played once more than at the start.
\<close>

theorem two_layers_published_once:
  assumes "guard (mrun (multi_initial v1 v2 s) es0)"
    and "session_layers (xrSession (mrun (multi_initial v1 v2 s) es0)) = Some (base # others)"
    and "list_all (\<lambda>e. \<not> is_settlement e) es1" and "list_all (\<lambda>e. \<not> is_settlement e) es2"
  shows "session_layers (xrSession (mrun (multi_initial v1 v2 s)
           (es0 @ MFrame p cast # es1 @ FactorySettled (Inr eq) # es2 @
            FactorySettled (Inr qd) # es3))) =
           Some [layer eq, layer qd, base] \<and>
         bootstrap_trace (effects (mrun (multi_initial v1 v2 s)
           (es0 @ MFrame p cast # es1 @ FactorySettled (Inr eq) # es2 @
            FactorySettled (Inr qd) # es3))) =
           [BootstrapEntered,
            CreateMediaLayer (videos_get (mrun (multi_initial v1 v2 s) es0) ''equirect'') EQUIRECT_LAYER,
            CreateMediaLayer (videos_get (mrun (multi_initial v1 v2 s) es0) ''quad'') QUAD_LAYER,
            UpdateRenderState [layer eq, layer qd, base],
            Play ''equirect'', Play ''quad''] \<and>
         play_counts (videos (mrun (multi_initial v1 v2 s)
           (es0 @ MFrame p cast # es1 @ FactorySettled (Inr eq) # es2 @
            FactorySettled (Inr qd) # es3))) =
           [(''equirect'', Suc (play_calls v1)), (''quad'', Suc (play_calls v2))] \<and>
         mediaLayers (mrun (multi_initial v1 v2 s)
           (es0 @ MFrame p cast # es1 @ FactorySettled (Inr eq) # es2 @
            FactorySettled (Inr qd) # es3)) =
           [(''equirect'', eq), (''quad'', qd)]"
proof -
  let ?pc0 = "[(''equirect'', play_calls v1), (''quad'', play_calls v2)]"
  let ?ls0 = "case s of None \<Rightarrow> None | Some y \<Rightarrow> layers y"
  let ?a0 = "mrun (multi_initial v1 v2 s) es0"
  let ?a1 = "renderM p cast ?a0"
  let ?a2 = "mrun ?a1 es1"
  let ?a3 = "factorySettled (Inr eq) ?a2"
  let ?a4 = "mrun ?a3 es2"
  let ?a5 = "factorySettled (Inr qd) ?a4"
  let ?f = "mrun ?a5 es3"
  have run: "mrun (multi_initial v1 v2 s) (es0 @ MFrame p cast # es1 @ FactorySettled (Inr eq) # es2 @
                FactorySettled (Inr qd) # es3) = ?f"
    by (simp add: mrun_Cons mrun_append mstep_def)
  \<comment> \<open>the state in which readiness is detected\<close>
  have ok0: "reachable_ok ?pc0 ?ls0 ?a0" by (rule mrun_reachable_ok [OF multi_initial_reachable_ok])
  from assms(1) have nf: "\<not> flagged (xrSession ?a0)" by (rule guard_flagged)
  from reachable_ok_not_flagged [OF ok0 nf] have ns: "bootstrap ?a0 = NotStarted" .
  with ok0 have i0: "bootstrap_trace (effects ?a0) = []" "mediaLayers ?a0 = []"
    "play_counts (videos ?a0) = ?pc0"
    by (simp_all add: reachable_ok_def unpublished_def)
  from assms(2) obtain x where x: "xrSession ?a0 = Some x" "layers x = Some (base # others)"
    by (auto simp: session_layers_def split: option.splits)
  from i0(2) have "mediaLayers ?a0 = [] \<or> layerToolbarVisible ?a0 \<noteq> None" by simp
  note v1 = bviewD [OF renderM_enters [OF assms(1) this, of p cast]]
  have f1: "flagged (xrSession ?a1)" using v1(1) x by (simp add: flagged_def)
  \<comment> \<open>events until the first layer arrives\<close>
  from mrun_flagged_bview [OF f1 assms(3)] have b2: "bview ?a2 = bview ?a1" .
  note v2 = bviewD [OF b2 [unfolded bview_def [of ?a1]]]
  have aw: "bootstrap ?a2 = AwaitingEquirect" using v2(6) v1(6) by simp
  note v3 = bviewD [OF factorySettled_equirect [OF aw, of eq]]
  have f3: "flagged (xrSession ?a3)" using v3(1) v2(1) f1 by simp
  \<comment> \<open>events until the second layer arrives\<close>
  from mrun_flagged_bview [OF f3 assms(4)] have b4: "bview ?a4 = bview ?a3" .
  note v4 = bviewD [OF b4 [unfolded bview_def [of ?a3]]]
  have aw4: "bootstrap ?a4 = AwaitingQuad eq" using v4(6) v3(6) by simp
  have s4: "xrSession ?a4 = Some (x\<lparr>hasMediaLayer := True\<rparr>)"
    using v4(1) v3(1) v2(1) v1(1) x by simp
  have l4: "layers (x\<lparr>hasMediaLayer := True\<rparr>) = Some (base # others)" using x(2) by simp
  note v5 = bviewD [OF factorySettled_quad [OF aw4 s4 l4, of qd]]
  \<comment> \<open>everything after the publication\<close>
  have a5: "mrun (multi_initial v1 v2 s) (es0 @ MFrame p cast # es1 @ FactorySettled (Inr eq) # es2 @
                [FactorySettled (Inr qd)]) = ?a5"
    by (simp add: mrun_Cons mrun_append mrun_Nil mstep_def)
  have ok5: "reachable_ok ?pc0 ?ls0 ?a5"
    unfolding a5 [symmetric] by (rule mrun_reachable_ok [OF multi_initial_reachable_ok])
  have fin: "bootstrap ?a5 = Finished \<or> bootstrap ?a5 = Failed undefined"
    using v5(6) by simp
  from mrun_keeps_settled [OF ok5 fin, of es3] have bf: "bview ?f = bview ?a5" .
  note vf = bviewD [OF bf [unfolded bview_def [of ?a5]]]
  have pc4: "play_counts (videos ?a4) = ?pc0"
    using v4(2) v3(2) v2(2) v1(2) i0(3) by simp
  have tr4: "bootstrap_trace (effects ?a4) =
      [BootstrapEntered, CreateMediaLayer (videos_get ?a0 ''equirect'') EQUIRECT_LAYER,
       CreateMediaLayer (videos_get ?a0 ''quad'') QUAD_LAYER]"
    using v4(7) v3(7) v2(7,4) v1(7,4) i0(1) by (simp add: entered_trace_def)
  have ml4: "mediaLayers ?a4 = [(''equirect'', eq)]"
    using v4(5) v3(5) v2(5) v1(5) i0(2) by simp
  have c1: "session_layers (xrSession ?f) = Some [layer eq, layer qd, base]"
    using vf(1) v5(1) by (simp add: session_layers_def first_layer_def)
  have c2: "bootstrap_trace (effects ?f) =
           [BootstrapEntered,
            CreateMediaLayer (videos_get ?a0 ''equirect'') EQUIRECT_LAYER,
            CreateMediaLayer (videos_get ?a0 ''quad'') QUAD_LAYER,
            UpdateRenderState [layer eq, layer qd, base],
            Play ''equirect'', Play ''quad'']"
    using vf(7) v5(7) tr4 pc4 by (simp add: first_layer_def)
  have c3: "play_counts (videos ?f) = [(''equirect'', Suc (play_calls v1)), (''quad'', Suc (play_calls v2))]"
    using vf(2) v5(2) pc4 by simp
  have c4: "mediaLayers ?f = [(''equirect'', eq), (''quad'', qd)]"
    using vf(5) v5(5) ml4 by simp
  from c1 c2 c3 c4 show ?thesis unfolding run by blast
qed

theorem two_layers_published_once_witness:
  "guard (mrun (multi_initial (example_video 0 4) (example_video 1 2) (Some example_session))
      [MFrame True no_hits_any, MVideoReadyState ''quad'' 4]) \<and>
   session_layers (xrSession (mrun (multi_initial (example_video 0 4) (example_video 1 2) (Some example_session))
      [MFrame True no_hits_any, MVideoReadyState ''quad'' 4])) = Some (JObj 100 # []) \<and>
   list_all (\<lambda>e. \<not> is_settlement e) [MFrame True no_hits_any] \<and>
   list_all (\<lambda>e. \<not> is_settlement e) [MFrame False no_hits_any, MSelectStart 0 no_hits] \<and>
   session_layers (xrSession (mrun (multi_initial (example_video 0 4) (example_video 1 2) (Some example_session))
     ([MFrame True no_hits_any, MVideoReadyState ''quad'' 4] @
      MFrame True no_hits_any # [MFrame True no_hits_any] @ FactorySettled (Inr example_equirect) #
      [MFrame False no_hits_any, MSelectStart 0 no_hits] @ FactorySettled (Inr example_quad) #
      [MFrame True no_hits_any, FactorySettled (Inl (Error ''late''))]))) =
     Some [JObj 11, JObj 12, JObj 100] \<and>
   play_counts (videos (mrun (multi_initial (example_video 0 4) (example_video 1 2) (Some example_session))
     ([MFrame True no_hits_any, MVideoReadyState ''quad'' 4] @
      MFrame True no_hits_any # [MFrame True no_hits_any] @ FactorySettled (Inr example_equirect) #
      [MFrame False no_hits_any, MSelectStart 0 no_hits] @ FactorySettled (Inr example_quad) #
      [MFrame True no_hits_any, FactorySettled (Inl (Error ''late''))]))) =
     [(''equirect'', 1), (''quad'', 1)]"
proof -
  have h1: "guard (mrun (multi_initial (example_video 0 4) (example_video 1 2) (Some example_session))
      [MFrame True no_hits_any, MVideoReadyState ''quad'' 4])"
    by (simp add: guard_def example_defs multi_defs no_hits_any_def)
  have h2: "session_layers (xrSession (mrun
      (multi_initial (example_video 0 4) (example_video 1 2) (Some example_session))
      [MFrame True no_hits_any, MVideoReadyState ''quad'' 4])) = Some (JObj 100 # [])"
    by (simp add: session_layers_def example_defs multi_defs no_hits_any_def)
  have h3: "list_all (\<lambda>e. \<not> is_settlement e) [MFrame True no_hits_any]"
    and h4: "list_all (\<lambda>e. \<not> is_settlement e) [MFrame False no_hits_any, MSelectStart 0 no_hits]"
    by (simp_all add: is_settlement_def)
  from two_layers_published_once [OF h1 h2 h3 h4, of True no_hits_any example_equirect
      example_quad "[MFrame True no_hits_any, FactorySettled (Inl (Error ''late''))]"]
  show ?thesis using h1 h2 h3 h4
    by (simp add: example_equirect_def example_quad_def)
       (simp add: example_video_def)
qed

lemma video_below_threshold_not_ready:
  assumes "(k, v) \<in> set (videos a)" and "readyState v \<noteq> 4"
  shows "\<not> isVideosReady a"
  using assms by (auto simp: isVideosReady_def list_all_iff)

lemma all_videos_at_threshold_guard:
  assumes "list_all (\<lambda>(k, v). readyState v = 4) (videos b)"
    and "xrSession b = Some s" and "layers s \<noteq> None" and "\<not> hasMediaLayer s"
  shows "guard b"
  using assms by (simp add: guard_def isVideosReady_def)

text \<open>
  C9 (as amended).  In the multi-layer application, a frame on which some tracked video
  \<open>v\<close> has a ready state other than 4 leaves the bootstrap where it was: the guard is
  false, no layer is requested or stored, the session is untouched; and whenever no media
  layer exists yet or the visibility map has been created, the frame ends by rendering the
  scene, without an exception.  The condition is checked again on the next frame: on a
  frame on which every tracked video has ready state 4, with a session that has a layer
  list and no media layer yet and with no media layer stored, the bootstrap is entered.
  In the single-layer application a frame on which the ready state of the video is 0
  leaves the bootstrap where it was.
\<close>

theorem bootstrap_waits_for_ready_videos:
  assumes "(k, v) \<in> set (videos a)" and "readyState v \<noteq> 4"
    and "list_all (\<lambda>(k, v). readyState v = 4) (videos b)"
    and "xrSession b = Some s" and "layers s \<noteq> None" and "\<not> hasMediaLayer s"
    and "mediaLayers b = []"
    and "readyState (video sa) = 0"
  shows "bootstrap (renderM p cast a) = bootstrap a \<and>
         mediaLayers (renderM p cast a) = mediaLayers a \<and>
         xrSession (renderM p cast a) = xrSession a \<and>
         bootstrap_trace (effects (renderM p cast a)) = bootstrap_trace (effects a) \<and>
         (mediaLayers a = [] \<or> layerToolbarVisible a \<noteq> None \<longrightarrow>
            effects (renderM p cast a) =
              effects (if p then updateLayersOnRender a else a) @ [RenderScene]) \<and>
         bootstrap (renderM p cast b) = AwaitingEquirect \<and>
         xrSession (renderM p cast b) = Some (s\<lparr>hasMediaLayer := True\<rparr>) \<and>
         bootstrap_trace (effects (renderM p cast b)) =
           bootstrap_trace (effects b) @
           [BootstrapEntered, CreateMediaLayer (videos_get b ''equirect'') EQUIRECT_LAYER] \<and>
         xrSession (render q sa) = xrSession sa \<and>
         pendingReferenceSpace (render q sa) = pendingReferenceSpace sa \<and>
         bootstrap_trace (effects (render q sa)) = bootstrap_trace (effects sa)"
proof -
  have nr: "\<not> isVideosReady a" using assms(1,2) by (rule video_below_threshold_not_ready)
  from renderM_no_guard [OF not_ready_no_guard [OF nr], of p cast]
  have "bview (renderM p cast a) = bview a" .
  note v = bviewD [OF this [unfolded bview_def [of a]]]
  have m: "mediaLayers a = [] \<or> layerToolbarVisible a \<noteq> None \<longrightarrow>
            effects (renderM p cast a) =
              effects (if p then updateLayersOnRender a else a) @ [RenderScene]"
    using renderM_not_ready [OF nr] by blast
  have g: "guard b" using assms(3-6) by (rule all_videos_at_threshold_guard)
  from assms(7) have "mediaLayers b = [] \<or> layerToolbarVisible b \<noteq> None" by simp
  note w = bviewD [OF renderM_enters [OF g this, of p cast]]
  have e: "bootstrap (renderM p cast b) = AwaitingEquirect"
    "xrSession (renderM p cast b) = Some (s\<lparr>hasMediaLayer := True\<rparr>)"
    "bootstrap_trace (effects (renderM p cast b)) =
       bootstrap_trace (effects b) @
       [BootstrapEntered, CreateMediaLayer (videos_get b ''equirect'') EQUIRECT_LAYER]"
    using w(6,1,7) assms(4) by (simp_all add: entered_trace_def)
  have s: "xrSession (render q sa) = xrSession sa"
    "pendingReferenceSpace (render q sa) = pendingReferenceSpace sa"
    "bootstrap_trace (effects (render q sa)) = bootstrap_trace (effects sa)"
    using assms(8)
    by (simp_all add: render_def updateProgressBar_def Let_def split: option.splits)
  from v(6,5,1,7) m e s show ?thesis by blast
qed

theorem bootstrap_waits_for_ready_videos_witness:
  "(''quad'', example_video 1 2) \<in>
     set (videos (multi_initial (example_video 0 4) (example_video 1 2) (Some example_session))) \<and>
   readyState (example_video 1 2) \<noteq> 4 \<and>
   list_all (\<lambda>(k, v). readyState v = 4) (videos example_multi) \<and>
   xrSession example_multi = Some example_session \<and>
   layers example_session \<noteq> None \<and> \<not> hasMediaLayer example_session \<and>
   mediaLayers example_multi = [] \<and>
   readyState (video (single_initial (Ext 0) (example_video 0 0) (Some example_session))) = 0 \<and>
   bootstrap (renderM True no_hits_any
     (multi_initial (example_video 0 4) (example_video 1 2) (Some example_session))) = NotStarted \<and>
   effects (renderM True no_hits_any
     (multi_initial (example_video 0 4) (example_video 1 2) (Some example_session))) = [RenderScene] \<and>
   bootstrap (renderM True no_hits_any example_multi) = AwaitingEquirect \<and>
   pendingReferenceSpace (render True
     (single_initial (Ext 0) (example_video 0 0) (Some example_session))) = 0"
proof -
  have h1: "(''quad'', example_video 1 2) \<in>
     set (videos (multi_initial (example_video 0 4) (example_video 1 2) (Some example_session)))"
    by (simp add: multi_initial_def)
  have h2: "readyState (example_video 1 2) \<noteq> 4" by (simp add: example_video_def)
  have h3: "list_all (\<lambda>(k, v). readyState v = 4) (videos example_multi)"
    by (simp add: example_multi_def multi_initial_def example_video_def)
  have h4: "xrSession example_multi = Some example_session"
    by (simp add: example_multi_def multi_initial_def)
  have h5: "layers example_session \<noteq> None" and h6: "\<not> hasMediaLayer example_session"
    by (simp_all add: example_session_def)
  have h7: "mediaLayers example_multi = []" by (simp add: example_multi_def multi_initial_def)
  have h8: "readyState (video (single_initial (Ext 0) (example_video 0 0) (Some example_session))) = 0"
    by (simp add: single_initial_def example_video_def)
  from bootstrap_waits_for_ready_videos [OF h1 h2 h3 h4 h5 h6 h7 h8, of True no_hits_any True]
  show ?thesis using h1 h2 h3 h4 h5 h6 h7 h8
    by (simp add: multi_initial_def single_initial_def updateLayersOnRender_def)
qed

text \<open>
  The claim C9 as stated fails in two places.  In the single-layer application, with
  ready state 1 (below the threshold of 4) the first frame enters the bootstrap, and the
  layer is created and published.  In the multi-layer application, a frame that comes after
  the first layer has arrived and before the bootstrap has ended, with a video below the
  threshold, does raise an error: \<^verbatim>\<open>handleToolbarIntersections\<close> reads a property of the
  visibility map, which \<^verbatim>\<open>hideToolbars\<close> has not created yet.
\<close>

theorem bootstrap_below_threshold_counterexample:
  "readyState (video (single_initial (Ext 0) (example_video 0 1) (Some example_session))) = 1 \<and>
   effects (run example_binding (single_initial (Ext 0) (example_video 0 1) (Some example_session))
      [Frame False, ReferenceSpaceSettled (Inr (JObj 5))]) =
     [BootstrapEntered, Called (RequestReferenceSpace ''local''), RenderScene,
      Called (CreateEquirectLayer (JObj 0) [(''space'', JObj 5), (''layout'', JStr ''stereo-top-bottom'')]),
      UpdateRenderState [JObj 9, JObj 100], Play ''video''] \<and>
   \<not> isVideosReady (mrun example_multi
      [MFrame True no_hits_any, FactorySettled (Inr example_equirect), MVideoReadyState ''quad'' 3]) \<and>
   effects (mrun example_multi
      [MFrame True no_hits_any, FactorySettled (Inr example_equirect), MVideoReadyState ''quad'' 3,
       MFrame False no_hits_any]) =
     [BootstrapEntered, CreateMediaLayer (JObj 0) EQUIRECT_LAYER, CreateMediaLayer (JObj 1) QUAD_LAYER,
      Thrown (TypeError ''Cannot read properties of undefined'')]"
proof -
  have single: "readyState (video (single_initial (Ext 0) (example_video 0 1) (Some example_session))) = 1 \<and>
     effects (run example_binding (single_initial (Ext 0) (example_video 0 1) (Some example_session))
      [Frame False, ReferenceSpaceSettled (Inr (JObj 5))]) =
     [BootstrapEntered, Called (RequestReferenceSpace ''local''), RenderScene,
      Called (CreateEquirectLayer (JObj 0) [(''space'', JObj 5), (''layout'', JStr ''stereo-top-bottom'')]),
      UpdateRenderState [JObj 9, JObj 100], Play ''video'']"
    by (simp add: run_def step_def render_def onReferenceSpace_def updateProgressBar_def Let_def
        single_initial_def example_video_def example_session_def example_binding_def
        first_layer_def play_def js_div_def)
  have multi1: "\<not> isVideosReady (mrun example_multi
      [MFrame True no_hits_any, FactorySettled (Inr example_equirect), MVideoReadyState ''quad'' 3])"
    by (simp add: example_defs multi_defs)
  have multi2: "effects (mrun example_multi
      [MFrame True no_hits_any, FactorySettled (Inr example_equirect), MVideoReadyState ''quad'' 3,
       MFrame False no_hits_any]) =
     [BootstrapEntered, CreateMediaLayer (JObj 0) EQUIRECT_LAYER, CreateMediaLayer (JObj 1) QUAD_LAYER,
      Thrown (TypeError ''Cannot read properties of undefined'')]"
    by (simp add: example_defs multi_defs)
  from single multi1 multi2 show ?thesis by blast
qed

end
